theory Spec2Isabelle
  imports Main "HOL-Library.Log_Nat"
begin

section \<open>The light client of ss-ipfs-lite (lib/ss\_light.go)\<close>

text \<open>
  A shallow embedding of the download orchestration in \<^verbatim>\<open>lib/ss_light.go\<close>: the
  control-plane commands, the decoding of the response envelope, the construction of
  the client, and the session run by \<^verbatim>\<open>Start\<close> with its zero-peer wait loop and its
  background retry task.

  Go strings and byte slices are \<^typ>\<open>string\<close> (lists of bytes), Go's \<^verbatim>\<open>int\<close> and
  \<^verbatim>\<open>int64\<close> are \<^typ>\<open>int\<close> (no computation here comes near the 64-bit range), an
  \<^verbatim>\<open>error\<close> is the text of the error, and instants and \<^verbatim>\<open>time.Duration\<close>s are
  integers of nanoseconds. A \<^verbatim>\<open>float64\<close> is the rational number it stands for, every
  operation rounding its exact result to the nearest number of 53 significant bits.
\<close>

subsection \<open>Constants\<close>

type_synonym err = string
type_synonym time = int

definition cmdSeparator :: string where
  "cmdSeparator = ''%$#''"

definition apiAddr :: string where
  "apiAddr = ''http://35.244.28.138:6343/v3/execute''"

definition peerThreshold :: int where
  "peerThreshold = 5"

definition success :: int where
  "success = 200"

definition internalError :: int where
  "internalError = 500"

definition timeoutError :: int where
  "timeoutError = 504"

definition serviceError :: int where
  "serviceError = 503"

subsection \<open>API objects\<close>

record AddrInfo =
  ID :: string
  Addrs :: "string list"

record cookie =
  CookieId :: string
  Leaders :: "AddrInfo list"
  DownloadIndex :: string
  Filename :: string
  Hash :: string
  Link :: string

record info =
  Cookie :: cookie
  SwarmKey :: string
  Rate :: string

record apiResp =
  Status :: int
  Data :: info
  Details :: string

text \<open>The anonymous struct \<^verbatim>\<open>tmp\<close> of \<^verbatim>\<open>UnmarshalJSON\<close>; its \<^verbatim>\<open>Data\<close> is the raw
  text of the payload.\<close>

record tmp =
  tmpStatus :: int
  tmpDetails :: string
  tmpData :: string

definition zero_cookie :: cookie where
  "zero_cookie = \<lparr>CookieId = [], Leaders = [], DownloadIndex = [], Filename = [],
     Hash = [], Link = []\<rparr>"

definition zero_info :: info where
  "zero_info = \<lparr>Cookie = zero_cookie, SwarmKey = [], Rate = []\<rparr>"

definition zero_apiResp :: apiResp where
  "zero_apiResp = \<lparr>Status = 0, Data = zero_info, Details = []\<rparr>"

subsection \<open>combineArgs\<close>

text \<open>The loop of \<^verbatim>\<open>combineArgs\<close>: \<open>idx\<close> is the index of the next argument and
  \<open>retPath\<close> the string built so far.\<close>

fun combineArgs_loop :: "string \<Rightarrow> nat \<Rightarrow> string list \<Rightarrow> string \<Rightarrow> string" where
  "combineArgs_loop separator idx [] retPath = retPath"
| "combineArgs_loop separator idx (v # args) retPath =
     combineArgs_loop separator (Suc idx) args
       ((if idx \<noteq> 0 then retPath @ separator else retPath) @ v)"

definition combineArgs :: "string \<Rightarrow> string list \<Rightarrow> string" where
  "combineArgs separator args = combineArgs_loop separator 0 args []"

text \<open>What the specification calls "tokens joined by the separator".\<close>

fun joined :: "string \<Rightarrow> string list \<Rightarrow> string" where
  "joined sep [] = []"
| "joined sep [t] = t"
| "joined sep (t # u # ts) = t @ sep @ joined sep (u # ts)"

subsection \<open>Formatting integers\<close>

definition digit_char :: "nat \<Rightarrow> char" where
  "digit_char d = char_of (48 + d)"

text \<open>\<^verbatim>\<open>fmt.Sprintf("%d", n)\<close>: the decimal digits, with a minus sign below zero.\<close>

function decimal :: "nat \<Rightarrow> string" where
  "decimal n = (if n < 10 then [digit_char n] else decimal (n div 10) @ [digit_char (n mod 10)])"
  by pat_completeness auto
termination
  by (relation "measure (\<lambda>n. n)") auto

declare decimal.simps [simp del]

definition sprintf_d :: "int \<Rightarrow> string" where
  "sprintf_d n = (if n < 0 then CHR ''-'' # decimal (nat (- n)) else decimal (nat n))"

subsection \<open>Results, output records and effects\<close>

text \<open>A call either returns or panics.\<close>

datatype 'a outcome = Return 'a | Panic string

type_synonym SSReceipt = string

record StatOut =
  ConnectedPeers :: "string list"
  Ledgers :: "SSReceipt list"
  DownloadTime :: int

text \<open>
  Modelled from the spec: the output record and its constructor \<^verbatim>\<open>NewOut\<close> are declared
  in a file of the package that is not among the sources; the specification gives every
  result as a uniform record of status, message, detail and data. The message constants
  \<^verbatim>\<open>MetaInfo\<close> and \<^verbatim>\<open>DownloadSuccess\<close> are declared there too and stay symbolic.
\<close>

datatype message = MetaInfo | DownloadSuccess | Text string

datatype payload = NoData | Metadata info | Stats StatOut

record Out =
  outStatus :: int
  outMessage :: message
  outDetails :: string
  outData :: payload

definition NewOut :: "int \<Rightarrow> message \<Rightarrow> string \<Rightarrow> payload \<Rightarrow> Out" where
  "NewOut status msg details data =
     \<lparr>outStatus = status, outMessage = msg, outDetails = details, outData = data\<rparr>"

datatype level = DebugLevel | InfoLevel | WarnLevel | ErrorLevel

text \<open>
  The effects of the main flow, in the order they happen. A log entry carries its format
  string; \<open>Shown out json\<close> is \<^verbatim>\<open>OutMessage(out, json)\<close>; \<open>Posted url type body\<close> is an
  HTTP POST; the others are the calls into the operating system, the transport and the
  payment engine.
\<close>

datatype event =
    Logged level string
  | Posted string string string
  | Shown Out bool
  | Created string "err option"
  | DecodedPSK string "err option"
  | SetUpLibp2p "err option"
  | NewPeer "err option"
  | Bootstrapped "AddrInfo list" int
  | SpawnedRetry
  | DecodedCid string "err option"
  | GotFile "err option"
  | SpawnedMonitor
  | Copied "err option"
  | Slept int
  | ListedPeers
  | GotMicroPayments

definition showStep :: "int \<Rightarrow> string \<Rightarrow> bool \<Rightarrow> event" where
  "showStep status msg jsonOut = Shown (NewOut success (Text msg) [] NoData) jsonOut"

subsection \<open>The control-plane requests\<close>

text \<open>
  The libraries the client calls are parameters of the model: \<^verbatim>\<open>encoding/json\<close>,
  \<^verbatim>\<open>encoding/base64\<close>, \<^verbatim>\<open>net/http\<close> with \<^verbatim>\<open>ioutil.ReadAll\<close>, and the external-IP
  consensus. \<open>json_checkValid\<close> is the syntax check \<^verbatim>\<open>json.Unmarshal\<close> makes before it
  decodes; \<open>json_unmarshal_info raw d\<close> decodes into the value \<open>d\<close> and gives the error,
  if any, with the value as it was left. \<open>http_post url contentType body\<close> is \<open>Inl e\<close>
  when the request fails, \<open>Inr (Inl e)\<close> when reading the response body fails, and
  \<open>Inr (Inr b)\<close> with the body otherwise.
\<close>

record net =
  json_marshal :: "(string \<rightharpoonup> string) \<Rightarrow> err + string"
  json_checkValid :: "string \<Rightarrow> err option"
  json_unmarshal_map :: "string \<Rightarrow> err + (string \<rightharpoonup> string)"
  json_unmarshal_tmp :: "string \<Rightarrow> err + tmp"
  json_unmarshal_info :: "string \<Rightarrow> info \<Rightarrow> err option \<times> info"
  base64_encode :: "string \<Rightarrow> string"
  externalIP :: "err + string"
  http_post :: "string \<Rightarrow> string \<Rightarrow> string \<Rightarrow> err + (err + string)"

text \<open>\<^verbatim>\<open>apiResp.UnmarshalJSON\<close>: the error, if any, and the receiver as it is left. A key
  missing from a Go map reads as the empty string. \<^verbatim>\<open>%s\<close> applied to an integer prints
  as \<^verbatim>\<open>%!s(int=N)\<close>. The two debug logs are left out.\<close>

definition UnmarshalJSON :: "('a net_scheme) \<Rightarrow> apiResp \<Rightarrow> string \<Rightarrow> err option \<times> apiResp" where
  "UnmarshalJSON w a b =
     (case json_unmarshal_map w b of
        Inl e \<Rightarrow> (Some e, a)
      | Inr val \<Rightarrow>
          (case json_unmarshal_tmp w (case val ''val'' of None \<Rightarrow> [] | Some s \<Rightarrow> s) of
             Inl e \<Rightarrow> (Some e, a)
           | Inr t \<Rightarrow>
               if tmpStatus t \<noteq> 200 then
                 (let errStr = tmpDetails t;
                      errStr = (if length errStr = 0
                                then ''Invalid status from server: %!s(int='' @ sprintf_d (tmpStatus t) @ '')''
                                else errStr)
                  in (Some errStr, a))
               else
                 (let a = a\<lparr>Status := tmpStatus t\<rparr>;
                      (e, d) = json_unmarshal_info w (tmpData t) (Data a)
                  in (e, a\<lparr>Data := d\<rparr>))))"

text \<open>
  \<^verbatim>\<open>json.Unmarshal(respBuf, &respData)\<close> with \<^verbatim>\<open>respData\<close> a pointer to an
  \<^verbatim>\<open>apiResp\<close>: invalid syntax is reported before any decoding, the literal
  \<^verbatim>\<open>null\<close> sets the pointer to nil (\<open>None\<close>) without calling the decoder, and any other
  value is handed, without the surrounding white space, to \<^verbatim>\<open>UnmarshalJSON\<close>.
\<close>

definition json_space :: "char \<Rightarrow> bool" where
  "json_space c = (c = CHR '' '' \<or> c = CHR 0x09 \<or> c = CHR 0x0A \<or> c = CHR 0x0D)"

definition json_trim :: "string \<Rightarrow> string" where
  "json_trim b = rev (dropWhile json_space (rev (dropWhile json_space b)))"

definition Unmarshal_apiResp :: "('a net_scheme) \<Rightarrow> apiResp \<Rightarrow> string \<Rightarrow> err option \<times> apiResp option" where
  "Unmarshal_apiResp w a respBuf =
     (case json_checkValid w respBuf of
        Some e \<Rightarrow> (Some e, Some a)
      | None \<Rightarrow>
          if json_trim respBuf = ''null'' then (None, None)
          else (let (e, a') = UnmarshalJSON w a (json_trim respBuf) in (e, Some a')))"

definition getExternalIp :: "('a net_scheme) \<Rightarrow> string" where
  "getExternalIp w = (case externalIP w of Inl e \<Rightarrow> ''0.0.0.0'' | Inr ip \<Rightarrow> ip)"

text \<open>The map \<^verbatim>\<open>args\<close> that \<^verbatim>\<open>getInfo\<close> marshals; \<open>pubKB\<close> is the result of
  \<^verbatim>\<open>pubKey.Bytes()\<close>.\<close>

definition getInfo_args :: "('a net_scheme) \<Rightarrow> string \<Rightarrow> string \<Rightarrow> string \<Rightarrow> (string \<rightharpoonup> string)" where
  "getInfo_args w sharable oldCookie pubKB =
     (let args = [''val'' \<mapsto> combineArgs cmdSeparator
            [''hive'', ''customer'', ''fetch'', sharable, ''--public-key'',
             base64_encode w pubKB, ''--source-ip'', getExternalIp w, ''-j'']]
      in if length oldCookie > 0
         then args(''val'' \<mapsto> combineArgs cmdSeparator
                [the (args ''val''), ''--cookie'', oldCookie])
         else args)"

text \<open>\<^verbatim>\<open>getInfo\<close>: the effects and the result. Taking the address of a field of the nil
  pointer panics.\<close>

definition getInfo :: "('a net_scheme) \<Rightarrow> string \<Rightarrow> string \<Rightarrow> string \<Rightarrow> event list \<times> (err + info) outcome" where
  "getInfo w sharable oldCookie pubKB =
     (case json_marshal w (getInfo_args w sharable oldCookie pubKB) of
        Inl e \<Rightarrow> ([], Return (Inl e))
      | Inr buf \<Rightarrow>
          (case http_post w apiAddr ''application/json'' buf of
             Inl e \<Rightarrow> ([Posted apiAddr ''application/json'' buf], Return (Inl e))
           | Inr (Inl e) \<Rightarrow> ([Posted apiAddr ''application/json'' buf], Return (Inl e))
           | Inr (Inr respBuf) \<Rightarrow>
               (case Unmarshal_apiResp w zero_apiResp respBuf of
                  (Some e, respData) \<Rightarrow>
                    ([Posted apiAddr ''application/json'' buf,
                      Logged ErrorLevel ''Failed unmarshaling result Err:%s Resp:%s''],
                     Return (Inl e))
                | (None, None) \<Rightarrow>
                    ([Posted apiAddr ''application/json'' buf],
                     Panic ''invalid memory address or nil pointer dereference'')
                | (None, Some a) \<Rightarrow>
                    ([Posted apiAddr ''application/json'' buf], Return (Inr (Data a))))))"

definition updateInfo_args :: "info \<Rightarrow> int \<Rightarrow> (string \<rightharpoonup> string)" where
  "updateInfo_args i timeConsumed =
     [''val'' \<mapsto> combineArgs cmdSeparator
        [''hive'', ''customer'', ''complete'', CookieId (Cookie i), sprintf_d timeConsumed, ''-j'']]"

text \<open>\<^verbatim>\<open>updateInfo\<close>: an error of the decoding is returned only when the decoded status
  is not 200.\<close>

definition updateInfo :: "('a net_scheme) \<Rightarrow> info \<Rightarrow> int \<Rightarrow> event list \<times> err option outcome" where
  "updateInfo w i timeConsumed =
     (case json_marshal w (updateInfo_args i timeConsumed) of
        Inl e \<Rightarrow> ([], Return (Some e))
      | Inr buf \<Rightarrow>
          (case http_post w apiAddr ''application/json'' buf of
             Inl e \<Rightarrow> ([Posted apiAddr ''application/json'' buf], Return (Some e))
           | Inr (Inl e) \<Rightarrow> ([Posted apiAddr ''application/json'' buf], Return (Some e))
           | Inr (Inr respBuf) \<Rightarrow>
               (case Unmarshal_apiResp w zero_apiResp respBuf of
                  (None, respData) \<Rightarrow> ([Posted apiAddr ''application/json'' buf], Return None)
                | (Some e, None) \<Rightarrow>
                    ([Posted apiAddr ''application/json'' buf],
                     Panic ''invalid memory address or nil pointer dereference'')
                | (Some e, Some a) \<Rightarrow>
                    ([Posted apiAddr ''application/json'' buf],
                     Return (if Status a \<noteq> 200 then Some e else None)))))"

subsection \<open>The client and its environment\<close>

definition Millisecond :: int where
  "Millisecond = 1000000"

definition Second :: int where
  "Second = 1000 * Millisecond"

definition Minute :: int where
  "Minute = 60 * Second"

text \<open>The in-memory datastore of the client is opaque to the flow and left out.\<close>

record LightClient =
  destination :: string
  repoRoot :: string
  jsonOut :: bool
  timeout :: int
  privKey :: string
  pubKey :: string

text \<open>
  Everything else a session meets: the key generator, \<^verbatim>\<open>time.ParseDuration\<close>, the file
  system, the clock and the scheduler's choice when a timer and the cancellation signal
  are ready at the same instant (\<open>selectTie t\<close> holds when the signal wins at \<open>t\<close>).

  Modelled from the spec: the transport and payment engine (\<^verbatim>\<open>SetupLibp2p\<close>,
  \<^verbatim>\<open>New\<close>, \<^verbatim>\<open>Bootstrap\<close>, \<^verbatim>\<open>GetFile\<close>, the connected peers and
  \<^verbatim>\<open>GetMicroPayments\<close>) belong to the root package of the repository, which is not
  among the sources. The specification consumes them as abstract capabilities,
  \<^verbatim>\<open>bootstrap(leaders) -> count\<close>, \<^verbatim>\<open>fetch(id) -> sized byte stream\<close>,
  \<^verbatim>\<open>connectedPeers() -> list\<close> and \<^verbatim>\<open>getLedgerEntries() -> list\<close>, so each is a field
  giving the result of the call. \<open>Bootstrap t leaders\<close> is the count returned by a call
  made at the instant \<open>t\<close> and the time the call takes.

  \<open>ctxCreated\<close> is the instant at which the context with the timeout is created,
  \<open>setupDone\<close> the instant at which the first \<^verbatim>\<open>Bootstrap\<close> is called, \<open>copyStarted\<close> and
  \<open>copyEnded\<close> the two readings of the Unix clock around the transfer.
\<close>

record world = net +
  GenerateKeyPair :: "err + string \<times> string"
  ParseDuration :: "string \<Rightarrow> err + int"
  fpSeparator :: string
  os_Create :: "string \<Rightarrow> err option"
  DecodeV1PSK :: "string \<Rightarrow> err option"
  SetupLibp2p :: "err option"
  ipfslite_New :: "err option"
  Bootstrap :: "time \<Rightarrow> AddrInfo list \<Rightarrow> int \<times> nat"
  cid_Decode :: "string \<Rightarrow> err option"
  GetFile :: "err + int"
  io_Copy :: "err option"
  Peers :: "string list"
  GetMicroPayments :: "SSReceipt list \<times> err option"
  ctxCreated :: time
  setupDone :: time
  copyStarted :: int
  copyEnded :: int
  selectTie :: "time \<Rightarrow> bool"

definition NewLightClient :: "('a world_scheme) \<Rightarrow> string \<Rightarrow> string \<Rightarrow> bool \<Rightarrow> event list \<times> (err + LightClient)" where
  "NewLightClient w dest tmo json =
     (case GenerateKeyPair w of
        Inl e \<Rightarrow> ([Logged ErrorLevel ''Failed generating key pair Err:%s''], Inl e)
      | Inr (priv, pubk) \<Rightarrow>
          (case ParseDuration w tmo of
             Inl e \<Rightarrow>
               ([Logged WarnLevel ''Invalid timeout duration specified. Using default 15m''],
                Inr \<lparr>destination = dest, repoRoot = [], jsonOut = json, timeout = Minute * 45,
                     privKey = priv, pubKey = pubk\<rparr>)
           | Inr to \<Rightarrow>
               ([],
                Inr \<lparr>destination = dest, repoRoot = [], jsonOut = json, timeout = to,
                     privKey = priv, pubKey = pubk\<rparr>)))"

subsection \<open>Waiting on the cancellation signal and a timer\<close>

text \<open>
  \<^verbatim>\<open>select { case <-ctx.Done(): ... case <-time.After(d): ... }\<close> entered at \<open>now\<close>, the
  signal firing at \<open>doneAt\<close>: which case runs, and when. A signal that has fired already
  is taken at once; the timer is taken when it is due strictly before the signal, and
  when both are due together the scheduler chooses.
\<close>

datatype fired = CtxDone | TimerFired

definition select_wait :: "(time \<Rightarrow> bool) \<Rightarrow> time \<Rightarrow> time \<Rightarrow> int \<Rightarrow> fired \<times> time" where
  "select_wait tie doneAt now d =
     (if doneAt \<le> now then (CtxDone, now)
      else if doneAt < now + d \<or> (doneAt = now + d \<and> tie doneAt) then (CtxDone, doneAt)
      else (TimerFired, now + d))"

text \<open>The loop of the main flow when no peer is connected: \<open>count t\<close> is the shared count
  as read at \<open>t\<close>, the result is how and when the loop was left.\<close>

datatype waited = Stopped time | Proceeded time

function awaitPeers :: "(time \<Rightarrow> bool) \<Rightarrow> time \<Rightarrow> (time \<Rightarrow> int) \<Rightarrow> time \<Rightarrow> waited" where
  "awaitPeers tie deadline count now =
     (case select_wait tie deadline now Second of
        (CtxDone, t) \<Rightarrow> Stopped t
      | (TimerFired, t) \<Rightarrow>
          if count t > 0 then Proceeded t else awaitPeers tie deadline count t)"
  by pat_completeness auto
termination
  by (relation "measure (\<lambda>(tie, deadline, count, now). nat (deadline - now))")
     (auto simp: select_wait_def Second_def Millisecond_def split: if_splits)

declare awaitPeers.simps [simp del]

subsection \<open>The background retry task\<close>

text \<open>
  One entry for each turn of the task's loop: a re-bootstrap (the instant of the tick, the
  count \<^verbatim>\<open>Bootstrap\<close> returned and the instant it returned, when the shared count is
  increased), a tick on which nothing was done, and the three ways the task ends.
\<close>

datatype retry_step =
    Rebootstrap time int time
  | Idle time
  | GaveUp time
  | Cancelled time
  | Reached time

function retryTask :: "('a world_scheme) \<Rightarrow> AddrInfo list \<Rightarrow> time \<Rightarrow> time \<Rightarrow> time \<Rightarrow> int \<Rightarrow> retry_step list" where
  "retryTask w leaders start doneAt now count =
     (if count < peerThreshold then
        (case select_wait (selectTie w) doneAt now (Second * 30) of
           (CtxDone, t) \<Rightarrow> [Cancelled t]
         | (TimerFired, t) \<Rightarrow>
             if t - start > Minute * 15 then [GaveUp t]
             else if count < int (length leaders) then
               (let (n, d) = Bootstrap w t leaders
                in Rebootstrap t n (t + int d)
                     # retryTask w leaders start doneAt (t + int d) (count + n))
             else Idle t # retryTask w leaders start doneAt t count)
      else [Reached now])"
  by pat_completeness auto
termination
  by (relation "measure (\<lambda>(w, leaders, start, doneAt, now, count).
        nat (start + Minute * 15 + Second * 30 - now))")
     (auto simp: select_wait_def Minute_def Second_def Millisecond_def split: if_splits)

declare retryTask.simps [simp del]

text \<open>What the task prints and logs on a step.\<close>

fun retry_effects :: "bool \<Rightarrow> retry_step \<Rightarrow> event list" where
  "retry_effects json (Rebootstrap t n t') = [showStep success ''Re-Bootstrapped'' json]"
| "retry_effects json (Idle t) = []"
| "retry_effects json (GaveUp t) =
     [Logged WarnLevel ''Tried getting more peers for 15mins'',
      showStep timeoutError ''Download timed out'' json]"
| "retry_effects json (Cancelled t) = []"
| "retry_effects json (Reached t) =
     [Logged InfoLevel ''Done lagged bootstrapping. New count %d'']"

text \<open>The shared count at the instant \<open>t\<close>, from its first value and the steps of the
  task: the additions made up to \<open>t\<close>.\<close>

fun countAt :: "int \<Rightarrow> retry_step list \<Rightarrow> time \<Rightarrow> int" where
  "countAt c [] t = c"
| "countAt c (Rebootstrap tick n t' # steps) t =
     (if t' \<le> t then countAt (c + n) steps t else c)"
| "countAt c (s # steps) t = countAt c steps t"

text \<open>The successive values of the shared count.\<close>

fun counts :: "int \<Rightarrow> retry_step list \<Rightarrow> int list" where
  "counts c [] = [c]"
| "counts c (Rebootstrap tick n t' # steps) = c # counts (c + n) steps"
| "counts c (s # steps) = counts c steps"

subsection \<open>Start\<close>

text \<open>
  \<^verbatim>\<open>Start\<close> is given block by block, each block with the effects it adds and either the
  result \<^verbatim>\<open>Start\<close> returns from inside it or the go-ahead for the next block. The
  deferred \<^verbatim>\<open>cancel\<close> and \<^verbatim>\<open>Close\<close> run on every return after they are registered and
  are not recorded. \<open>progUpd\<close> tells whether an observer was passed.
\<close>

definition sessionDeadline :: "('a world_scheme) \<Rightarrow> LightClient \<Rightarrow> time" where
  "sessionDeadline w l = ctxCreated w + timeout l"

text \<open>From the creation of the destination file to the creation of the download agent.\<close>

definition Start_setup :: "('a world_scheme) \<Rightarrow> LightClient \<Rightarrow> info \<Rightarrow> event list \<times> Out option" where
  "Start_setup w l metadata =
     (case os_Create w (destination l) of
        Some e \<Rightarrow>
          ([Created (destination l) (Some e),
            Logged ErrorLevel ''Failed creating dest file Err: %s''],
           Some (NewOut internalError (Text ''Failed creating destination file'') e NoData))
      | None \<Rightarrow>
          (case DecodeV1PSK w (SwarmKey metadata) of
             Some e \<Rightarrow>
               ([Created (destination l) None, DecodedPSK (SwarmKey metadata) (Some e),
                 Logged ErrorLevel ''Failed decoding swarm key Err: %s''],
                Some (NewOut internalError (Text ''Failed decoding swarm key provided'') e NoData))
           | None \<Rightarrow>
               (case SetupLibp2p w of
                  Some e \<Rightarrow>
                    ([Created (destination l) None, DecodedPSK (SwarmKey metadata) None,
                      SetUpLibp2p (Some e),
                      Logged ErrorLevel ''Failed setting up libp2p node Err: %s''],
                     Some (NewOut internalError (Text ''Failed setting up p2p peer'') e NoData))
                | None \<Rightarrow>
                    (case ipfslite_New w of
                       Some e \<Rightarrow>
                         ([Created (destination l) None, DecodedPSK (SwarmKey metadata) None,
                           SetUpLibp2p None, NewPeer (Some e),
                           Logged ErrorLevel ''Failed setting up p2p xfer node Err: %s''],
                          Some (NewOut internalError (Text ''Failed setting up light client'') e NoData))
                     | None \<Rightarrow>
                         ([Created (destination l) None, DecodedPSK (SwarmKey metadata) None,
                           SetUpLibp2p None, NewPeer None,
                           showStep success ''Download agent created'' (jsonOut l)],
                          None)))))"

text \<open>
  The shared count as the main flow reads it at the instant \<open>t\<close>, while it waits: its first
  value \<open>count\<close>, set at \<open>now\<close>, and the additions of the retry task, which is started at
  \<open>now\<close> when \<open>count\<close> is below the threshold and is cancelled at the session's deadline.
\<close>

definition sharedCount :: "('a world_scheme) \<Rightarrow> LightClient \<Rightarrow> AddrInfo list \<Rightarrow> time \<Rightarrow> int \<Rightarrow> time \<Rightarrow> int" where
  "sharedCount w l leaders now count t =
     (if count < peerThreshold
      then countAt count (retryTask w leaders now (sessionDeadline w l) now count) t
      else count)"

text \<open>The first bootstrap, the start of the retry task and the wait for a first peer:
  \<open>Inl out\<close> when \<^verbatim>\<open>Start\<close> returns \<open>out\<close> from the wait, \<open>Inr t\<close> when the flow goes on at
  the instant \<open>t\<close>.\<close>

definition Start_swarm :: "('a world_scheme) \<Rightarrow> LightClient \<Rightarrow> info \<Rightarrow> event list \<times> (Out + time)" where
  "Start_swarm w l metadata =
     (let leaders = Leaders (Cookie metadata);
          (count, d) = Bootstrap w (setupDone w) leaders;
          now = setupDone w + int d;
          evs = [Bootstrapped leaders count, showStep success ''Bootstrapped'' (jsonOut l)]
                @ (if count < peerThreshold then [SpawnedRetry] else [])
      in if count = 0 then
           (case awaitPeers (selectTie w) (sessionDeadline w l)
                   (sharedCount w l leaders now count) now of
              Stopped t \<Rightarrow>
                (evs @ [Logged WarnLevel ''No nodes connected. Waiting to find more'',
                        Logged InfoLevel ''Client stopped while waiting for more peers''],
                 Inl (NewOut internalError (Text ''Stopped while waiting for peers'')
                        ''context cancelled'' NoData))
            | Proceeded t \<Rightarrow>
                (evs @ [Logged WarnLevel ''No nodes connected. Waiting to find more''], Inr t))
         else (evs, Inr now))"

text \<open>After a successful copy: the grace period, the completion report and the result.\<close>

definition Start_finish :: "('a world_scheme) \<Rightarrow> LightClient \<Rightarrow> info \<Rightarrow> bool \<Rightarrow> event list \<times> Out outcome" where
  "Start_finish w l metadata stat =
     (let downloadTime = copyEnded w - copyStarted w;
          pre = [showStep success ''Finishing download'' (jsonOut l), Slept (Second * 5)]
      in case updateInfo w metadata downloadTime of
           (evs, Panic p) \<Rightarrow> (pre @ evs, Panic p)
         | (evs, Return err) \<Rightarrow>
             (let evs' = pre @ evs
                    @ (if err \<noteq> None
                       then [Logged WarnLevel ''Failed updating metadata after download Err: %s'']
                       else [])
                    @ [showStep success ''Updating cookie'' (jsonOut l)]
              in if \<not> stat then (evs', Return (NewOut 200 DownloadSuccess [] NoData))
                 else
                   (evs' @ [ListedPeers, GotMicroPayments],
                    Return (NewOut success (Text ''Stats'') []
                      (Stats \<lparr>ConnectedPeers = Peers w,
                              Ledgers = fst (GetMicroPayments w),
                              DownloadTime = downloadTime\<rparr>)))))"

text \<open>From the decoding of the content identifier to the end.\<close>

definition Start_download :: "('a world_scheme) \<Rightarrow> LightClient \<Rightarrow> info \<Rightarrow> bool \<Rightarrow> bool \<Rightarrow> event list \<times> Out outcome" where
  "Start_download w l metadata stat progUpd =
     (let h = Hash (Cookie metadata);
          pre = [Logged InfoLevel ''Connected to %d peers. Starting download'']
      in case cid_Decode w h of
           Some e \<Rightarrow>
             (pre @ [DecodedCid h (Some e),
                     Logged ErrorLevel ''Failed decoding file hash Err: %s''],
              Return (NewOut internalError (Text ''Failed decoding filehash provided'') e NoData))
         | None \<Rightarrow>
             (let pre = pre @ [DecodedCid h None,
                               showStep success ''Starting download'' (jsonOut l)]
              in case GetFile w of
                   Inl e \<Rightarrow>
                     (pre @ [GotFile (Some e)],
                      Return (NewOut 500 (Text ''Failed getting file'') e NoData))
                 | Inr sz \<Rightarrow>
                     (let pre = pre @ [GotFile None]
                                @ (if progUpd then [SpawnedMonitor] else [])
                      in case io_Copy w of
                           Some e \<Rightarrow>
                             (pre @ [Copied (Some e)],
                              Return (NewOut internalError
                                        (Text ''Failed writing to destination'') e NoData))
                         | None \<Rightarrow>
                             (case Start_finish w l metadata stat of
                                (evs, out) \<Rightarrow> (pre @ [Copied None] @ evs, out)))))"

text \<open>The destination defaults to the file name of the metadata in the current directory;
  the client keeps the path.\<close>

definition withDestination :: "('a world_scheme) \<Rightarrow> LightClient \<Rightarrow> info \<Rightarrow> LightClient" where
  "withDestination w l metadata =
     (if destination l = ''.''
      then l\<lparr>destination := combineArgs (fpSeparator w)
                [destination l, Filename (Cookie metadata)]\<rparr>
      else l)"

text \<open>\<^verbatim>\<open>Start\<close>: the effects of the main flow, the client as it is left, and the result.\<close>

definition Start :: "('a world_scheme) \<Rightarrow> LightClient \<Rightarrow> string \<Rightarrow> bool \<Rightarrow> bool \<Rightarrow> bool \<Rightarrow> event list \<times> LightClient \<times> Out outcome" where
  "Start w l sharable onlyInfo stat progUpd =
     (case getInfo w sharable [] (pubKey l) of
        (evs, Panic p) \<Rightarrow> (evs, l, Panic p)
      | (evs, Return (Inl e)) \<Rightarrow>
          (evs @ [Logged ErrorLevel ''Failed getting metadata Err: %s''], l,
           Return (NewOut serviceError (Text ''Failed getting metadata'') e NoData))
      | (evs, Return (Inr metadata)) \<Rightarrow>
          (let evs = evs @ [showStep success ''Got metadata'' (jsonOut l),
                            Logged InfoLevel ''Got metadata info %+v'']
           in if onlyInfo then (evs, l, Return (NewOut success MetaInfo [] (Metadata metadata)))
              else
                (let l = withDestination w l metadata
                 in case Start_setup w l metadata of
                      (evs1, Some out) \<Rightarrow> (evs @ evs1, l, Return out)
                    | (evs1, None) \<Rightarrow>
                        (case Start_swarm w l metadata of
                           (evs2, Inl out) \<Rightarrow> (evs @ evs1 @ evs2, l, Return out)
                         | (evs2, Inr t) \<Rightarrow>
                             (case Start_download w l metadata stat progUpd of
                                (evs3, out) \<Rightarrow> (evs @ evs1 @ evs2 @ evs3, l, out))))))"

subsection \<open>The progress monitor\<close>

text \<open>
  The percentage is computed in \<^verbatim>\<open>float64\<close>. A finite \<^verbatim>\<open>float64\<close> is a rational number,
  and a conversion, a division or a multiplication gives the exact result rounded to the
  nearest number with 53 significant bits, ties going to the even one. The exponent
  range of the format is left out: a file size is below \<open>2^63\<close>, so the numbers met
  here lie, in absolute value, between \<open>2^-63\<close> and \<open>2^70\<close> when they are not zero.

  \<open>round_even q\<close> is the integer nearest to \<open>q\<close>, \<open>expo x\<close> the exponent \<open>e\<close> with
  \<open>2^e \<le> x < 2^(e+1)\<close> of a positive \<open>x\<close>, and \<open>fl x\<close> the \<^verbatim>\<open>float64\<close> nearest to \<open>x\<close>.
\<close>

definition round_even :: "rat \<Rightarrow> int" where
  "round_even q =
     (let f = \<lfloor>q\<rfloor>; r = q - of_int f
      in if r < 1 / 2 then f else if 1 / 2 < r then f + 1 else if even f then f else f + 1)"

definition expo :: "rat \<Rightarrow> int" where
  "expo x = (let (p, q) = quotient_of x; d = bitlen p - bitlen q
             in if 2 powi d \<le> x then d else d - 1)"

definition fl :: "rat \<Rightarrow> rat" where
  "fl x = (if x = 0 then 0
           else if x < 0
             then - (of_int (round_even (- x / 2 powi (expo (- x) - 52))) * 2 powi (expo (- x) - 52))
           else of_int (round_even (x / 2 powi (expo x - 52))) * 2 powi (expo x - 52))"

text \<open>\<^verbatim>\<open>int(f)\<close> discards the fraction.\<close>

definition trunc :: "rat \<Rightarrow> int" where
  "trunc x = (if x < 0 then \<lceil>x\<rceil> else \<lfloor>x\<rfloor>)"

text \<open>\<^verbatim>\<open>float64(st.Size()) / float64(rsc.Size()) * 100\<close>\<close>

definition progress :: "int \<Rightarrow> int \<Rightarrow> rat" where
  "progress sz tot = fl (fl (fl (of_int sz) / fl (of_int tot)) * 100)"

text \<open>
  The loop of the monitor, one turn for each result of \<^verbatim>\<open>dst.Stat()\<close> in \<open>samples\<close>, an
  error or the size of the destination file, with \<open>tot\<close> the size of the stream: the calls
  of \<^verbatim>\<open>UpdateProgress\<close> it makes, and whether it has returned. Between two turns it
  waits for 500 milliseconds or for the cancellation signal, which it only logs.
\<close>

fun monitor :: "int \<Rightarrow> (err + int) list \<Rightarrow> (int \<times> int \<times> int) list \<times> bool" where
  "monitor tot [] = ([], False)"
| "monitor tot (Inl e # samples) = monitor tot samples"
| "monitor tot (Inr sz # samples) =
     (let prog = progress sz tot
      in if prog = 100 then ([(trunc prog, sz, tot)], True)
         else (case monitor tot samples of
                 (calls, returned) \<Rightarrow> ((trunc prog, sz, tot) # calls, returned)))"

text \<open>The sizes sampled, in order.\<close>

fun sizes :: "(err + int) list \<Rightarrow> int list" where
  "sizes [] = []"
| "sizes (Inl e # samples) = sizes samples"
| "sizes (Inr sz # samples) = sz # sizes samples"

subsection \<open>Reading the effects\<close>

text \<open>The request of an HTTP POST, and the effects that reach outside the process other
  than by logging or printing.\<close>

fun posted :: "event \<Rightarrow> (string \<times> string \<times> string) option" where
  "posted (Posted url ct body) = Some (url, ct, body)"
| "posted ev = None"

fun io_call :: "event \<Rightarrow> bool" where
  "io_call (Logged lv s) = False"
| "io_call (Shown out json) = False"
| "io_call ev = True"


fun bootstrapped :: "event \<Rightarrow> bool" where
  "bootstrapped (Bootstrapped ls c) = True"
| "bootstrapped ev = False"

fun spawned :: "event \<Rightarrow> bool" where
  "spawned SpawnedRetry = True"
| "spawned ev = False"

text \<open>\<open>polls_idle cnt now k\<close>: every poll of the wait loop before the \<open>k\<close>-th, one second
  apart from \<open>now\<close> on, read a count that was not positive.\<close>

definition polls_idle :: "(time \<Rightarrow> int) \<Rightarrow> time \<Rightarrow> int \<Rightarrow> bool" where
  "polls_idle cnt now k = (\<forall>j. 1 \<le> j \<and> j < k \<longrightarrow> cnt (now + j * Second) \<le> 0)"

text \<open>The inner document of the envelope: the string under the key \<^verbatim>\<open>val\<close>.\<close>

definition inner_text :: "(string \<rightharpoonup> string) \<Rightarrow> string" where
  "inner_text val = (case val ''val'' of None \<Rightarrow> [] | Some s \<Rightarrow> s)"

subsection \<open>A concrete environment\<close>

text \<open>
  A session to run the model on: five leaders, a control plane that answers the fetch
  command and refuses every other request, a payment engine whose ledger cannot be read,
  and a transport that connects to all five leaders at once. The JSON library is
  tabulated on the texts that occur.
\<close>

definition demo_leaders :: "AddrInfo list" where
  "demo_leaders = map (\<lambda>p. \<lparr>ID = p, Addrs = []\<rparr>) [''p1'', ''p2'', ''p3'', ''p4'', ''p5'']"

definition demo_info :: info where
  "demo_info =
     \<lparr>Cookie = \<lparr>CookieId = ''ck1'', Leaders = demo_leaders, DownloadIndex = ''7'',
                Filename = ''file.bin'', Hash = ''QmHash'', Link = ''lnk''\<rparr>,
      SwarmKey = ''key'', Rate = ''1''\<rparr>"

definition demo_data :: string where
  \<open>demo_data = ''{"Cookie":{"Id":"ck1","Leaders":[{"ID":"p1","Addrs":[]},{"ID":"p2","Addrs":[]},{"ID":"p3","Addrs":[]},{"ID":"p4","Addrs":[]},{"ID":"p5","Addrs":[]}],"DownloadIndex":"7","Filename":"file.bin","Hash":"QmHash","Link":"lnk"},"SwarmKey":"a2V5","Rate":"1"}''\<close>

text \<open>A JSON string literal: quotes and backslashes escaped.\<close>

definition json_quote :: "string \<Rightarrow> string" where
  "json_quote s =
     [CHR 0x22] @ concat (map (\<lambda>c. if c = CHR 0x22 \<or> c = CHR 0x5C then [CHR 0x5C, c] else [c]) s)
     @ [CHR 0x22]"

definition envelope :: "string \<Rightarrow> string" where
  \<open>envelope inner = ''{"val":'' @ json_quote inner @ ''}''\<close>

definition inner_ok :: string where
  \<open>inner_ok = ''{"status":200,"details":"","data":'' @ demo_data @ ''}''\<close>

definition inner_refused :: string where
  \<open>inner_refused = ''{"status":403,"details":"sharable expired"}''\<close>

definition inner_bare :: string where
  \<open>inner_bare = ''{"status":404}''\<close>

definition inner_number :: string where
  \<open>inner_number = ''{"status":200,"data":5}''\<close>

definition demo_unmarshal_map :: "string \<Rightarrow> err + (string \<rightharpoonup> string)" where
  \<open>demo_unmarshal_map b =
     (if b = envelope inner_ok then Inr [''val'' \<mapsto> inner_ok]
      else if b = envelope inner_refused then Inr [''val'' \<mapsto> inner_refused]
      else if b = envelope inner_bare then Inr [''val'' \<mapsto> inner_bare]
      else if b = envelope inner_number then Inr [''val'' \<mapsto> inner_number]
      else if b = ''{}'' then Inr Map.empty
      else Inl ''invalid character 'o' in literal null (expecting 'u')'')\<close>

definition demo_unmarshal_tmp :: "string \<Rightarrow> err + tmp" where
  "demo_unmarshal_tmp b =
     (if b = inner_ok then Inr \<lparr>tmpStatus = 200, tmpDetails = [], tmpData = demo_data\<rparr>
      else if b = inner_refused
        then Inr \<lparr>tmpStatus = 403, tmpDetails = ''sharable expired'', tmpData = []\<rparr>
      else if b = inner_bare then Inr \<lparr>tmpStatus = 404, tmpDetails = [], tmpData = []\<rparr>
      else if b = inner_number then Inr \<lparr>tmpStatus = 200, tmpDetails = [], tmpData = ''5''\<rparr>
      else Inl ''unexpected end of JSON input'')"

definition demo_unmarshal_info :: "string \<Rightarrow> info \<Rightarrow> err option \<times> info" where
  "demo_unmarshal_info raw d =
     (if raw = demo_data then (None, demo_info)
      else if raw = ''5''
        then (Some ''json: cannot unmarshal number into Go value of type lib.info'', d)
      else (Some ''unexpected end of JSON input'', d))"

definition demo_post :: "string \<Rightarrow> string \<Rightarrow> string \<Rightarrow> err + (err + string)" where
  \<open>demo_post url ct body =
     (if take 31 body = ''{"val":"hive%$#customer%$#fetch'' then Inr (Inr (envelope inner_ok))
      else Inl ''connection refused'')\<close>

definition demo_duration :: "string \<Rightarrow> err + int" where
  "demo_duration s =
     (if s = ''15m'' then Inr (Minute * 15)
      else if s = ''2s'' then Inr (Second * 2)
      else Inl (''time: invalid duration '' @ s))"

definition demo_world :: world where
  "demo_world =
     \<lparr>json_marshal = (\<lambda>args. Inr (envelope (case args ''val'' of None \<Rightarrow> [] | Some v \<Rightarrow> v))),
      json_checkValid = (\<lambda>b. None),
      json_unmarshal_map = demo_unmarshal_map,
      json_unmarshal_tmp = demo_unmarshal_tmp,
      json_unmarshal_info = demo_unmarshal_info,
      base64_encode = (\<lambda>b. ''cHVi''),
      externalIP = Inr ''203.0.113.7'',
      http_post = demo_post,
      GenerateKeyPair = Inr (''priv'', ''pub''),
      ParseDuration = demo_duration,
      fpSeparator = ''/'',
      os_Create = (\<lambda>p. None),
      DecodeV1PSK = (\<lambda>k. None),
      SetupLibp2p = None,
      ipfslite_New = None,
      Bootstrap = (\<lambda>t ls. (5, 0)),
      cid_Decode = (\<lambda>h. None),
      GetFile = Inr 1024,
      io_Copy = None,
      Peers = [''p1'', ''p2'', ''p3'', ''p4'', ''p5''],
      GetMicroPayments = ([], Some ''ledger unavailable''),
      ctxCreated = 0,
      setupDone = 0,
      copyStarted = 100,
      copyEnded = 103,
      selectTie = (\<lambda>t. True)\<rparr>"

definition demo_client :: LightClient where
  "demo_client =
     \<lparr>destination = ''.'', repoRoot = [], jsonOut = False, timeout = Second * 2,
      privKey = ''priv'', pubKey = ''pub''\<rparr>"

text \<open>The same session with no leader reachable, and with the leaders reachable only
  when the retry task bootstraps again.\<close>

definition unreachable_world :: world where
  "unreachable_world = demo_world\<lparr>Bootstrap := (\<lambda>t ls. (0, 0))\<rparr>"

definition late_world :: world where
  "late_world = demo_world\<lparr>Bootstrap := (\<lambda>t ls. (if t = 0 then 0 else 5, 0))\<rparr>"

text \<open>A transport on which every bootstrap connects one more leader and takes five
  nanoseconds.\<close>

definition slow_world :: world where
  "slow_world = demo_world\<lparr>Bootstrap := (\<lambda>t ls. (1, 5))\<rparr>"


section \<open>Properties\<close>

subsection \<open>The commands sent to the control plane\<close>

lemma combineArgs_loop_joined:
  "combineArgs_loop sep (Suc i) ts acc = acc @ concat (map (\<lambda>t. sep @ t) ts)"
  by (induction ts arbitrary: i acc) simp_all

lemma joined_Cons: "joined sep (t # ts) = t @ concat (map (\<lambda>u. sep @ u) ts)"
  by (induction ts arbitrary: t) simp_all

lemma combineArgs_joined: "combineArgs sep ts = joined sep ts"
proof (cases ts)
  case Nil
  then show ?thesis by (simp add: combineArgs_def)
next
  case (Cons t us)
  then show ?thesis
    by (simp add: combineArgs_def combineArgs_loop_joined joined_Cons)
qed

lemma getInfo_args_joined:
  "getInfo_args w sharable oldCookie pubKB =
     [''val'' \<mapsto> joined ''%$#''
        ([''hive'', ''customer'', ''fetch'', sharable, ''--public-key'', base64_encode w pubKB,
          ''--source-ip'', getExternalIp w, ''-j'']
         @ (if oldCookie = [] then [] else [''--cookie'', oldCookie]))]"
  by (simp add: getInfo_args_def Let_def combineArgs_joined cmdSeparator_def)

lemma updateInfo_args_joined:
  "updateInfo_args i t =
     [''val'' \<mapsto> ''hive%$#customer%$#complete%$#'' @ CookieId (Cookie i) @ ''%$#''
                   @ sprintf_d t @ ''%$#-j'']"
  by (simp add: updateInfo_args_def combineArgs_joined cmdSeparator_def)

lemma getInfo_posted:
  "List.map_filter posted (fst (getInfo w sharable oldCookie pubKB)) =
     (case json_marshal w (getInfo_args w sharable oldCookie pubKB) of
        Inl e \<Rightarrow> [] | Inr buf \<Rightarrow> [(apiAddr, ''application/json'', buf)])"
  by (simp add: getInfo_def List.map_filter_simps split: sum.splits prod.splits option.splits)

lemma updateInfo_posted:
  "List.map_filter posted (fst (updateInfo w i t)) =
     (case json_marshal w (updateInfo_args i t) of
        Inl e \<Rightarrow> [] | Inr buf \<Rightarrow> [(apiAddr, ''application/json'', buf)])"
  by (simp add: updateInfo_def List.map_filter_simps split: sum.splits prod.splits option.splits)

text \<open>
  C6. The map that \<^verbatim>\<open>getInfo\<close> marshals and posts holds, under the key \<^verbatim>\<open>val\<close>, the tokens
  \<^verbatim>\<open>hive customer fetch <sharable> --public-key <base64 pubkey> --source-ip <ip> -j\<close> joined by
  \<^verbatim>\<open>%$#\<close>, followed by \<^verbatim>\<open>--cookie <cookieId>\<close> exactly when a previous cookie id is given;
  \<^verbatim>\<open>updateInfo\<close> posts \<^verbatim>\<open>hive%$#customer%$#complete%$#<cookieId>%$#<elapsedSeconds>%$#-j\<close>. In both
  the only request made is the POST of that marshalled map to the fixed endpoint.
\<close>

theorem control_plane_commands:
  "getInfo_args w sharable oldCookie pubKB =
     [''val'' \<mapsto> joined ''%$#''
        ([''hive'', ''customer'', ''fetch'', sharable, ''--public-key'', base64_encode w pubKB,
          ''--source-ip'', getExternalIp w, ''-j'']
         @ (if oldCookie = [] then [] else [''--cookie'', oldCookie]))]
   \<and> List.map_filter posted (fst (getInfo w sharable oldCookie pubKB)) =
     (case json_marshal w (getInfo_args w sharable oldCookie pubKB) of
        Inl e \<Rightarrow> [] | Inr buf \<Rightarrow> [(apiAddr, ''application/json'', buf)])
   \<and> updateInfo_args i t =
     [''val'' \<mapsto> ''hive%$#customer%$#complete%$#'' @ CookieId (Cookie i) @ ''%$#''
                   @ sprintf_d t @ ''%$#-j'']
   \<and> List.map_filter posted (fst (updateInfo w i t)) =
     (case json_marshal w (updateInfo_args i t) of
        Inl e \<Rightarrow> [] | Inr buf \<Rightarrow> [(apiAddr, ''application/json'', buf)])"
  using getInfo_args_joined getInfo_posted updateInfo_args_joined updateInfo_posted
  by blast

lemma sprintf_d_3: "sprintf_d 3 = ''3''"
  by code_simp

theorem control_plane_commands_witness:
  "getInfo_args demo_world ''abc123'' [] ''pub'' ''val'' =
     Some ''hive%$#customer%$#fetch%$#abc123%$#--public-key%$#cHVi%$#--source-ip%$#203.0.113.7%$#-j''
   \<and> getInfo_args demo_world ''abc123'' ''ck1'' ''pub'' ''val'' =
     Some ''hive%$#customer%$#fetch%$#abc123%$#--public-key%$#cHVi%$#--source-ip%$#203.0.113.7%$#-j%$#--cookie%$#ck1''
   \<and> updateInfo_args demo_info 3 ''val'' = Some ''hive%$#customer%$#complete%$#ck1%$#3%$#-j''"
  using control_plane_commands [of demo_world "''abc123''" "[]" "''pub''" demo_info 3]
        control_plane_commands [of demo_world "''abc123''" "''ck1''" "''pub''" demo_info 3]
  by (simp add: demo_world_def getExternalIp_def demo_info_def sprintf_d_3)

subsection \<open>The construction of the client\<close>

text \<open>
  C10. When the timeout string does not parse as a duration, \<^verbatim>\<open>NewLightClient\<close>, once the
  key pair is generated, returns a client and no error: it logs that the default of 15
  minutes is used and sets the timeout to 45 minutes.
\<close>

theorem NewLightClient_invalid_timeout:
  assumes "GenerateKeyPair w = Inr (priv, pubk)"
    and "ParseDuration w tmo = Inl e"
  shows "NewLightClient w dest tmo json =
           ([Logged WarnLevel ''Invalid timeout duration specified. Using default 15m''],
            Inr \<lparr>destination = dest, repoRoot = [], jsonOut = json, timeout = Minute * 45,
                 privKey = priv, pubKey = pubk\<rparr>)
         \<and> Minute * 45 = 2700000000000 \<and> Minute * 15 = 900000000000"
  using assms by (simp add: NewLightClient_def Minute_def Second_def Millisecond_def)

theorem NewLightClient_invalid_timeout_witness:
  "GenerateKeyPair demo_world = Inr (''priv'', ''pub'')
   \<and> ParseDuration demo_world ''soon'' = Inl ''time: invalid duration soon''
   \<and> NewLightClient demo_world ''.'' ''soon'' False =
       ([Logged WarnLevel ''Invalid timeout duration specified. Using default 15m''],
        Inr \<lparr>destination = ''.'', repoRoot = [], jsonOut = False, timeout = 2700000000000,
             privKey = ''priv'', pubKey = ''pub''\<rparr>)"
proof -
  have k: "GenerateKeyPair demo_world = Inr (''priv'', ''pub'')"
    by (simp add: demo_world_def)
  have p: "ParseDuration demo_world ''soon'' = Inl ''time: invalid duration soon''"
    by (simp add: demo_world_def demo_duration_def)
  from NewLightClient_invalid_timeout [OF k p, of "''.''" False] k p
  show ?thesis by simp
qed

subsection \<open>Decoding the response envelope\<close>

text \<open>
  C5 (as amended). Decoding fails with the decoder's error when the outer object or the
  inner document is malformed; when both parse and the inner status is not 200 it fails
  with the inner details, or, when these are empty, with a message made from the status;
  when the inner status is 200 the outcome is that of decoding the data payload into the
  metadata: its error if it fails, and the decoded metadata with status 200 otherwise.
\<close>

theorem UnmarshalJSON_envelope:
  "(json_unmarshal_map w b = Inl e \<longrightarrow> UnmarshalJSON w a b = (Some e, a))
   \<and> (json_unmarshal_map w b = Inr val \<and> json_unmarshal_tmp w (inner_text val) = Inl e
        \<longrightarrow> UnmarshalJSON w a b = (Some e, a))
   \<and> (json_unmarshal_map w b = Inr val \<and> json_unmarshal_tmp w (inner_text val) = Inr t
        \<and> tmpStatus t \<noteq> 200
        \<longrightarrow> UnmarshalJSON w a b =
              (Some (if tmpDetails t \<noteq> [] then tmpDetails t
                     else ''Invalid status from server: %!s(int='' @ sprintf_d (tmpStatus t) @ '')''),
               a))
   \<and> (json_unmarshal_map w b = Inr val \<and> json_unmarshal_tmp w (inner_text val) = Inr t
        \<and> tmpStatus t = 200
        \<longrightarrow> UnmarshalJSON w a b =
              (fst (json_unmarshal_info w (tmpData t) (Data a)),
               a\<lparr>Status := 200, Data := snd (json_unmarshal_info w (tmpData t) (Data a))\<rparr>))"
  by (auto simp: UnmarshalJSON_def inner_text_def Let_def split: prod.splits)

lemma um_number: "json_unmarshal_map demo_world (envelope inner_number) = Inr [''val'' \<mapsto> inner_number]"
  by (simp add: demo_world_def demo_unmarshal_map_def envelope_def json_quote_def
      inner_number_def inner_ok_def inner_refused_def inner_bare_def demo_data_def)

lemma ut_number: "json_unmarshal_tmp demo_world inner_number = Inr \<lparr>tmpStatus = 200, tmpDetails = [], tmpData = ''5''\<rparr>"
  by (simp add: demo_world_def demo_unmarshal_tmp_def
      inner_number_def inner_ok_def inner_refused_def inner_bare_def demo_data_def)

text \<open>A body that the claim as stated gets wrong: both layers parse and the inner status
  is 200, yet the payload is a number and the decoding fails.\<close>

theorem UnmarshalJSON_status_200_counterexample:
  "json_unmarshal_map demo_world (envelope inner_number) = Inr [''val'' \<mapsto> inner_number]
   \<and> json_unmarshal_tmp demo_world inner_number
       = Inr \<lparr>tmpStatus = 200, tmpDetails = [], tmpData = ''5''\<rparr>
   \<and> fst (UnmarshalJSON demo_world zero_apiResp (envelope inner_number))
       = Some ''json: cannot unmarshal number into Go value of type lib.info''"
  by (simp add: um_number ut_number UnmarshalJSON_def demo_world_def demo_unmarshal_info_def
       demo_unmarshal_map_def demo_unmarshal_tmp_def envelope_def json_quote_def
      inner_number_def inner_ok_def inner_refused_def inner_bare_def demo_data_def)

subsection \<open>The flow of Start\<close>



lemma getInfo_io:
  "filter io_call (fst (getInfo w sharable oldCookie pubKB)) =
     (case json_marshal w (getInfo_args w sharable oldCookie pubKB) of
        Inl e \<Rightarrow> [] | Inr buf \<Rightarrow> [Posted apiAddr ''application/json'' buf])"
  by (simp add: getInfo_def split: sum.splits prod.splits option.splits)

lemma getInfo_success_marshalled:
  "snd (getInfo w sharable oldCookie pubKB) = Return (Inr metadata) \<Longrightarrow>
     \<exists>buf. json_marshal w (getInfo_args w sharable oldCookie pubKB) = Inr buf"
  by (auto simp: getInfo_def split: sum.splits prod.splits option.splits)

lemma Start_cases [case_names panic no_metadata only_info setup_failed no_peers download]:
  obtains
    evs p where "getInfo w sharable [] (pubKey l) = (evs, Panic p)"
      and "Start w l sharable onlyInfo stat progUpd = (evs, l, Panic p)"
  | evs e where "getInfo w sharable [] (pubKey l) = (evs, Return (Inl e))"
      and "Start w l sharable onlyInfo stat progUpd =
             (evs @ [Logged ErrorLevel ''Failed getting metadata Err: %s''], l,
              Return (NewOut serviceError (Text ''Failed getting metadata'') e NoData))"
  | evs md where "getInfo w sharable [] (pubKey l) = (evs, Return (Inr md))"
      and "onlyInfo"
      and "Start w l sharable onlyInfo stat progUpd =
             (evs @ [showStep success ''Got metadata'' (jsonOut l),
                     Logged InfoLevel ''Got metadata info %+v''],
              l, Return (NewOut success MetaInfo [] (Metadata md)))"
  | evs md evs1 out where "getInfo w sharable [] (pubKey l) = (evs, Return (Inr md))"
      and "\<not> onlyInfo"
      and "Start_setup w (withDestination w l md) md = (evs1, Some out)"
      and "Start w l sharable onlyInfo stat progUpd =
             (evs @ [showStep success ''Got metadata'' (jsonOut l),
                     Logged InfoLevel ''Got metadata info %+v''] @ evs1,
              withDestination w l md, Return out)"
  | evs md evs1 evs2 out where "getInfo w sharable [] (pubKey l) = (evs, Return (Inr md))"
      and "\<not> onlyInfo"
      and "Start_setup w (withDestination w l md) md = (evs1, None)"
      and "Start_swarm w (withDestination w l md) md = (evs2, Inl out)"
      and "Start w l sharable onlyInfo stat progUpd =
             (evs @ [showStep success ''Got metadata'' (jsonOut l),
                     Logged InfoLevel ''Got metadata info %+v''] @ evs1 @ evs2,
              withDestination w l md, Return out)"
  | evs md evs1 evs2 t where "getInfo w sharable [] (pubKey l) = (evs, Return (Inr md))"
      and "\<not> onlyInfo"
      and "Start_setup w (withDestination w l md) md = (evs1, None)"
      and "Start_swarm w (withDestination w l md) md = (evs2, Inr t)"
      and "Start w l sharable onlyInfo stat progUpd =
             (evs @ [showStep success ''Got metadata'' (jsonOut l),
                     Logged InfoLevel ''Got metadata info %+v''] @ evs1 @ evs2
                  @ fst (Start_download w (withDestination w l md) md stat progUpd),
              withDestination w l md,
              snd (Start_download w (withDestination w l md) md stat progUpd))"
proof -
  obtain evs r where g: "getInfo w sharable [] (pubKey l) = (evs, r)"
    by (cases "getInfo w sharable [] (pubKey l)")
  show thesis
  proof (cases r)
    case (Panic p)
    with g show thesis by (intro that(1) [of evs p]) (simp_all add: Start_def)
  next
    case (Return res)
    show thesis
    proof (cases res)
      case (Inl e)
      with g Return show thesis by (intro that(2) [of evs e]) (simp_all add: Start_def)
    next
      case (Inr md)
      note gm = g [unfolded Return Inr]
      show thesis
      proof (cases onlyInfo)
        case True
        with gm show thesis by (intro that(3) [of evs md]) (simp_all add: Start_def)
      next
        case False
        obtain evs1 so where s1: "Start_setup w (withDestination w l md) md = (evs1, so)"
          by (cases "Start_setup w (withDestination w l md) md")
        show thesis
        proof (cases so)
          case (Some out)
          with gm False s1 show thesis
            by (intro that(4) [of evs md evs1 out]) (simp_all add: Start_def Let_def)
        next
          case None
          obtain evs2 r2 where s2: "Start_swarm w (withDestination w l md) md = (evs2, r2)"
            by (cases "Start_swarm w (withDestination w l md) md")
          show thesis
          proof (cases r2)
            case (Inl out)
            with gm False s1 None s2 show thesis
              by (intro that(5) [of evs md evs1 evs2 out]) (simp_all add: Start_def Let_def)
          next
            case (Inr t)
            with gm False s1 None s2 show thesis
              by (intro that(6) [of evs md evs1 evs2 t])
                 (simp_all add: Start_def Let_def split: prod.splits)
          qed
        qed
      qed
    qed
  qed
qed

text \<open>
  C7. When only the metadata is asked for and the fetch succeeds, \<^verbatim>\<open>Start\<close> returns the
  metadata right after the fetch: the client is unchanged, and beyond logging and
  printing the step, the only effect is the one POST of the fetch command. No file is
  created, no transport is set up, nothing is bootstrapped, downloaded or reported.
\<close>

theorem Start_onlyInfo:
  assumes "snd (getInfo w sharable [] (pubKey l)) = Return (Inr metadata)"
  shows "Start w l sharable True stat progUpd =
           (fst (getInfo w sharable [] (pubKey l))
              @ [showStep success ''Got metadata'' (jsonOut l),
                 Logged InfoLevel ''Got metadata info %+v''],
            l, Return (NewOut success MetaInfo [] (Metadata metadata)))
         \<and> (\<exists>buf. json_marshal w (getInfo_args w sharable [] (pubKey l)) = Inr buf
                \<and> filter io_call (fst (Start w l sharable True stat progUpd))
                    = [Posted apiAddr ''application/json'' buf])"
proof -
  obtain evs where g: "getInfo w sharable [] (pubKey l) = (evs, Return (Inr metadata))"
    using assms by (cases "getInfo w sharable [] (pubKey l)") simp
  have s: "Start w l sharable True stat progUpd =
           (evs @ [showStep success ''Got metadata'' (jsonOut l),
                   Logged InfoLevel ''Got metadata info %+v''],
            l, Return (NewOut success MetaInfo [] (Metadata metadata)))"
    by (simp add: Start_def g)
  obtain buf where b: "json_marshal w (getInfo_args w sharable [] (pubKey l)) = Inr buf"
    using getInfo_success_marshalled [OF assms] by blast
  have "filter io_call evs = [Posted apiAddr ''application/json'' buf]"
    using getInfo_io [of w sharable "[]" "pubKey l"] by (simp add: g b)
  then show ?thesis
    using s g b by (simp add: showStep_def)
qed








lemma Start_download_result:
  "cid_Decode w (Hash (Cookie md)) = None \<Longrightarrow> GetFile w = Inr sz \<Longrightarrow> io_Copy w = None \<Longrightarrow>
     snd (Start_download w l md stat progUpd) = snd (Start_finish w l md stat)"
  by (simp add: Start_download_def Let_def split: prod.splits)

subsection \<open>The concrete environment at work\<close>

lemmas demo_json_defs =
  demo_world_def demo_unmarshal_map_def demo_unmarshal_tmp_def demo_unmarshal_info_def
  envelope_def json_quote_def inner_number_def inner_ok_def inner_refused_def inner_bare_def
  demo_data_def inner_text_def

lemma sprintf_d_404: "sprintf_d 404 = ''404''"
  by code_simp

theorem UnmarshalJSON_envelope_witness:
  "UnmarshalJSON demo_world zero_apiResp ''nope''
     = (Some ''invalid character 'o' in literal null (expecting 'u')'', zero_apiResp)
   \<and> UnmarshalJSON demo_world zero_apiResp ''{}''
     = (Some ''unexpected end of JSON input'', zero_apiResp)
   \<and> UnmarshalJSON demo_world zero_apiResp (envelope inner_refused)
     = (Some ''sharable expired'', zero_apiResp)
   \<and> UnmarshalJSON demo_world zero_apiResp (envelope inner_bare)
     = (Some ''Invalid status from server: %!s(int=404)'', zero_apiResp)
   \<and> UnmarshalJSON demo_world zero_apiResp (envelope inner_ok)
     = (None, \<lparr>Status = 200, Data = demo_info, Details = []\<rparr>)"
proof -
  have m0: "json_unmarshal_map demo_world ''nope''
              = Inl ''invalid character 'o' in literal null (expecting 'u')''"
    by (simp add: demo_json_defs)
  have m1: "json_unmarshal_map demo_world ''{}'' = Inr Map.empty"
    by (simp add: demo_json_defs)
  have t1: "json_unmarshal_tmp demo_world (inner_text Map.empty)
              = Inl ''unexpected end of JSON input''"
    by (simp add: demo_json_defs)
  have m2: "json_unmarshal_map demo_world (envelope inner_refused) = Inr [''val'' \<mapsto> inner_refused]"
    by (simp add: demo_json_defs)
  have t2: "json_unmarshal_tmp demo_world (inner_text [''val'' \<mapsto> inner_refused])
              = Inr \<lparr>tmpStatus = 403, tmpDetails = ''sharable expired'', tmpData = []\<rparr>"
    by (simp add: demo_json_defs)
  have m3: "json_unmarshal_map demo_world (envelope inner_bare) = Inr [''val'' \<mapsto> inner_bare]"
    by (simp add: demo_json_defs)
  have t3: "json_unmarshal_tmp demo_world (inner_text [''val'' \<mapsto> inner_bare])
              = Inr \<lparr>tmpStatus = 404, tmpDetails = [], tmpData = []\<rparr>"
    by (simp add: demo_json_defs)
  have m4: "json_unmarshal_map demo_world (envelope inner_ok) = Inr [''val'' \<mapsto> inner_ok]"
    by (simp add: demo_json_defs)
  have t4: "json_unmarshal_tmp demo_world (inner_text [''val'' \<mapsto> inner_ok])
              = Inr \<lparr>tmpStatus = 200, tmpDetails = [], tmpData = demo_data\<rparr>"
    by (simp add: demo_json_defs)
  have i4: "json_unmarshal_info demo_world demo_data zero_info = (None, demo_info)"
    by (simp add: demo_world_def demo_unmarshal_info_def)
  show ?thesis
    using UnmarshalJSON_envelope [of demo_world "''nope''"
        "''invalid character 'o' in literal null (expecting 'u')''" zero_apiResp]
      UnmarshalJSON_envelope [of demo_world "''{}''" "''unexpected end of JSON input''"
        zero_apiResp Map.empty]
      UnmarshalJSON_envelope [of demo_world "envelope inner_refused" _ zero_apiResp
        "[''val'' \<mapsto> inner_refused]"
        "\<lparr>tmpStatus = 403, tmpDetails = ''sharable expired'', tmpData = []\<rparr>"]
      UnmarshalJSON_envelope [of demo_world "envelope inner_bare" _ zero_apiResp
        "[''val'' \<mapsto> inner_bare]" "\<lparr>tmpStatus = 404, tmpDetails = [], tmpData = []\<rparr>"]
      UnmarshalJSON_envelope [of demo_world "envelope inner_ok" _ zero_apiResp
        "[''val'' \<mapsto> inner_ok]" "\<lparr>tmpStatus = 200, tmpDetails = [], tmpData = demo_data\<rparr>"]
    by (simp add: m0 m1 t1 m2 t2 m3 t3 m4 t4 i4 sprintf_d_404 zero_apiResp_def)
qed

lemma demo_getInfo:
  "getInfo demo_world ''abc123'' [] ''pub'' =
     ([Posted apiAddr ''application/json''
         (envelope ''hive%$#customer%$#fetch%$#abc123%$#--public-key%$#cHVi%$#--source-ip%$#203.0.113.7%$#-j'')],
      Return (Inr demo_info))"
  by (simp add: getInfo_def getInfo_args_def combineArgs_def cmdSeparator_def getExternalIp_def
       Unmarshal_apiResp_def UnmarshalJSON_def json_trim_def json_space_def zero_apiResp_def
       demo_post_def demo_json_defs)



theorem Start_onlyInfo_witness:
  "snd (getInfo demo_world ''abc123'' [] (pubKey demo_client)) = Return (Inr demo_info)
   \<and> Start demo_world demo_client ''abc123'' True False False =
       ([Posted apiAddr ''application/json''
           (envelope ''hive%$#customer%$#fetch%$#abc123%$#--public-key%$#cHVi%$#--source-ip%$#203.0.113.7%$#-j''),
         showStep success ''Got metadata'' False,
         Logged InfoLevel ''Got metadata info %+v''],
        demo_client, Return (NewOut success MetaInfo [] (Metadata demo_info)))"
proof -
  have k: "pubKey demo_client = ''pub''" "jsonOut demo_client = False"
    by (simp_all add: demo_client_def)
  have g: "snd (getInfo demo_world ''abc123'' [] (pubKey demo_client)) = Return (Inr demo_info)"
    by (simp add: k demo_getInfo)
  from Start_onlyInfo [OF g, of False False] show ?thesis
    by (simp add: k demo_getInfo)
qed

subsection \<open>Completion reporting is best effort\<close>











subsection \<open>Waiting for a first peer\<close>

lemma Second_pos: "0 < Second"
  by (simp add: Second_def Millisecond_def)

lemma select_wait_cases:
  "select_wait tie doneAt now d =
     (if doneAt \<le> now then (CtxDone, now)
      else if doneAt < now + d \<or> (doneAt = now + d \<and> tie doneAt) then (CtxDone, doneAt)
      else (TimerFired, now + d))"
  by (simp add: select_wait_def)

lemma polls_idle_step:
  assumes "cnt (now + Second) \<le> 0" and "polls_idle cnt (now + Second) k"
  shows "polls_idle cnt now (k + 1)"
  unfolding polls_idle_def
proof (intro allI impI)
  fix j :: int
  assume j: "1 \<le> j \<and> j < k + 1"
  show "cnt (now + j * Second) \<le> 0"
  proof (cases "j = 1")
    case True
    with assms(1) show ?thesis by simp
  next
    case False
    with j have "1 \<le> j - 1 \<and> j - 1 < k" by simp
    with assms(2) have "cnt (now + Second + (j - 1) * Second) \<le> 0"
      unfolding polls_idle_def by blast
    moreover have "now + Second + (j - 1) * Second = now + j * Second"
      by (simp add: algebra_simps)
    ultimately show ?thesis by simp
  qed
qed

lemma awaitPeers_spec:
  "(\<exists>k\<ge>1. awaitPeers tie dl cnt now = Proceeded (now + k * Second)
          \<and> now + k * Second \<le> dl \<and> 0 < cnt (now + k * Second) \<and> polls_idle cnt now k)
   \<or> (awaitPeers tie dl cnt now = Stopped (max now dl)
       \<and> (\<forall>k. now + k * Second < dl \<longrightarrow> polls_idle cnt now (k + 1)))"
proof (induction tie dl cnt now rule: awaitPeers.induct)
  case (1 tie dl cnt now)
  let ?t = "now + Second"
  consider (gone) "dl \<le> now"
    | (soon) "now < dl" "dl < ?t \<or> (dl = ?t \<and> tie dl)"
    | (tick) "now < dl" "\<not> (dl < ?t \<or> (dl = ?t \<and> tie dl))"
    by fastforce
  then show ?case
  proof cases
    case gone
    then have a: "awaitPeers tie dl cnt now = Stopped (max now dl)"
      by (simp add: awaitPeers.simps [of tie dl cnt now] select_wait_cases max_def)
    have "polls_idle cnt now (k + 1)" if "now + k * Second < dl" for k
    proof -
      from that gone have "k < 1" by (simp add: Second_def Millisecond_def)
      then show ?thesis by (simp add: polls_idle_def)
    qed
    with a show ?thesis by blast
  next
    case soon
    then have a: "awaitPeers tie dl cnt now = Stopped (max now dl)"
      by (auto simp: awaitPeers.simps [of tie dl cnt now] select_wait_cases max_def)
    have "polls_idle cnt now (k + 1)" if "now + k * Second < dl" for k
    proof -
      from that soon have "k < 1" by (auto simp: Second_def Millisecond_def)
      then show ?thesis by (simp add: polls_idle_def)
    qed
    with a show ?thesis by blast
  next
    case tick
    then have sel: "select_wait tie dl now Second = (TimerFired, ?t)"
      by (simp add: select_wait_cases)
    from tick have le: "?t \<le> dl" by auto
    show ?thesis
    proof (cases "0 < cnt ?t")
      case True
      with sel have "awaitPeers tie dl cnt now = Proceeded (now + 1 * Second)"
        by (simp add: awaitPeers.simps [of tie dl cnt now])
      moreover have "polls_idle cnt now 1" by (simp add: polls_idle_def)
      ultimately show ?thesis using True le by (intro disjI1 exI [of _ 1]) simp
    next
      case False
      with sel have a: "awaitPeers tie dl cnt now = awaitPeers tie dl cnt ?t"
        by (simp add: awaitPeers.simps [of tie dl cnt now])
      from False have z: "cnt ?t \<le> 0" by simp
      from "1.IH" [OF sel [symmetric] refl False]
      consider (p) k where "1 \<le> k" "awaitPeers tie dl cnt ?t = Proceeded (?t + k * Second)"
          "?t + k * Second \<le> dl" "0 < cnt (?t + k * Second)" "polls_idle cnt ?t k"
        | (s) "awaitPeers tie dl cnt ?t = Stopped (max ?t dl)"
          "\<forall>k. ?t + k * Second < dl \<longrightarrow> polls_idle cnt ?t (k + 1)"
        by blast
      then show ?thesis
      proof cases
        case p
        have e: "?t + k * Second = now + (k + 1) * Second" by (simp add: algebra_simps)
        from p z have "polls_idle cnt now (k + 1)" by (intro polls_idle_step)
        with p a e show ?thesis
          by (intro disjI1 exI [of _ "k + 1"]) simp
      next
        case s
        from le tick have m: "max ?t dl = max now dl" by (simp add: max_def)
        have "polls_idle cnt now (k + 1)" if "now + k * Second < dl" for k
        proof -
          have "?t + (k - 1) * Second = now + k * Second" by (simp add: algebra_simps)
          with that s(2) have "polls_idle cnt ?t (k - 1 + 1)" by metis
          with z show ?thesis using polls_idle_step [of cnt now "k - 1 + 1"]
            polls_idle_def by (auto simp: polls_idle_def)
        qed
        with a s m show ?thesis by simp
      qed
    qed
  qed
qed

lemma not_bootstrapped: "filter bootstrapped evs = [] \<Longrightarrow> Bootstrapped ls c \<notin> set evs"
  by (auto simp: filter_empty_conv)

lemma getInfo_not_bootstrapped: "filter bootstrapped (fst (getInfo w s c k)) = []"
  by (simp add: getInfo_def split: sum.splits prod.splits option.splits)

lemma Start_setup_not_bootstrapped: "filter bootstrapped (fst (Start_setup w l md)) = []"
  by (simp add: Start_setup_def showStep_def split: option.splits)

lemma Start_swarm_bootstrapped:
  "filter bootstrapped (fst (Start_swarm w l md)) =
     [Bootstrapped (Leaders (Cookie md)) (fst (Bootstrap w (setupDone w) (Leaders (Cookie md))))]"
  by (simp add: Start_swarm_def showStep_def Let_def split: prod.splits waited.splits)

lemma Start_swarm_zero:
  assumes "fst (Bootstrap w (setupDone w) (Leaders (Cookie md))) = 0"
  shows "snd (Start_swarm w l md) =
           (case awaitPeers (selectTie w) (sessionDeadline w l)
                   (sharedCount w l (Leaders (Cookie md))
                      (setupDone w + int (snd (Bootstrap w (setupDone w) (Leaders (Cookie md))))) 0)
                   (setupDone w + int (snd (Bootstrap w (setupDone w) (Leaders (Cookie md))))) of
              Stopped t \<Rightarrow> Inl (NewOut internalError (Text ''Stopped while waiting for peers'')
                                 ''context cancelled'' NoData)
            | Proceeded t \<Rightarrow> Inr t)"
  using assms
  by (cases "Bootstrap w (setupDone w) (Leaders (Cookie md))")
     (simp add: Start_swarm_def Let_def split: waited.splits)

lemma updateInfo_not_bootstrapped: "filter bootstrapped (fst (updateInfo w i t)) = []"
  by (simp add: updateInfo_def split: sum.splits prod.splits option.splits)

lemma Start_finish_not_bootstrapped: "filter bootstrapped (fst (Start_finish w l md stat)) = []"
  using updateInfo_not_bootstrapped [of w md "copyEnded w - copyStarted w"]
  by (auto simp: Start_finish_def showStep_def Let_def split: prod.splits outcome.splits)

lemma Start_download_not_bootstrapped:
  "filter bootstrapped (fst (Start_download w l md stat progUpd)) = []"
  using Start_finish_not_bootstrapped [of w l md stat]
  by (auto simp: Start_download_def showStep_def Let_def
           split: prod.splits option.splits sum.splits)

lemma Start_download_decodes:
  "\<exists>r. DecodedCid (Hash (Cookie md)) r \<in> set (fst (Start_download w l md stat progUpd))"
  by (auto simp: Start_download_def Let_def split: option.splits sum.splits prod.splits)

lemma sessionDeadline_withDestination [simp]:
  "sessionDeadline w (withDestination w l md) = sessionDeadline w l"
  by (simp add: sessionDeadline_def withDestination_def)

lemma sharedCount_withDestination [simp]:
  "sharedCount w (withDestination w l md) = sharedCount w l"
  by (intro ext) (simp add: sharedCount_def)

text \<open>
  C1. In every session whose first bootstrap returns a count of zero, the main flow polls
  the shared count once a second. Either some poll, made no later than the deadline, is
  the first to read a positive count and the flow goes on to the download; or no poll
  before the deadline reads a positive count, the wait ends at the deadline (at once,
  when the deadline has passed already) and \<^verbatim>\<open>Start\<close> returns the failure
  "Stopped while waiting for peers". The wait never outlasts the deadline.
\<close>

theorem zero_peers_wait:
  assumes "Bootstrapped ls 0 \<in> set (fst (Start w l sharable onlyInfo stat progUpd))"
  shows "\<exists>md. snd (getInfo w sharable [] (pubKey l)) = Return (Inr md) \<and> ls = Leaders (Cookie md)
           \<and> (let now = setupDone w + int (snd (Bootstrap w (setupDone w) ls));
                   dl = sessionDeadline w l;
                   cnt = sharedCount w l ls now 0
               in (\<exists>k\<ge>1. awaitPeers (selectTie w) dl cnt now = Proceeded (now + k * Second)
                      \<and> now + k * Second \<le> dl \<and> 0 < cnt (now + k * Second)
                      \<and> polls_idle cnt now k
                      \<and> (\<exists>r. DecodedCid (Hash (Cookie md)) r
                                \<in> set (fst (Start w l sharable onlyInfo stat progUpd))))
                  \<or> (awaitPeers (selectTie w) dl cnt now = Stopped (max now dl)
                      \<and> (\<forall>k. now + k * Second < dl \<longrightarrow> polls_idle cnt now (k + 1))
                      \<and> snd (snd (Start w l sharable onlyInfo stat progUpd)) =
                          Return (NewOut internalError (Text ''Stopped while waiting for peers'')
                                    ''context cancelled'' NoData)))"
proof -
  let ?S = "Start w l sharable onlyInfo stat progUpd"
  note g0 = not_bootstrapped [OF getInfo_not_bootstrapped, of ls 0 w sharable "[]" "pubKey l"]
  show ?thesis
  proof (cases rule: Start_cases [of w sharable l onlyInfo stat progUpd])
    case (panic evs p)
    with assms g0 show ?thesis by simp
  next
    case (no_metadata evs e)
    with assms g0 show ?thesis by simp
  next
    case (only_info evs md)
    with assms g0 show ?thesis by (simp add: showStep_def)
  next
    case (setup_failed evs md evs1 out)
    with assms g0 not_bootstrapped [OF Start_setup_not_bootstrapped, of ls 0 w "withDestination w l md" md]
    show ?thesis by (simp add: showStep_def)
  next
    case (no_peers evs md evs1 evs2 out)
    let ?l = "withDestination w l md"
    from assms no_peers g0 not_bootstrapped [OF Start_setup_not_bootstrapped, of ls 0 w ?l md]
    have "Bootstrapped ls 0 \<in> set (filter bootstrapped (fst (Start_swarm w ?l md)))"
      by (simp add: showStep_def)
    then have ls: "ls = Leaders (Cookie md)" and z: "fst (Bootstrap w (setupDone w) (Leaders (Cookie md))) = 0"
      unfolding Start_swarm_bootstrapped by simp_all
    let ?now = "setupDone w + int (snd (Bootstrap w (setupDone w) ls))"
    let ?cnt = "sharedCount w l ls ?now 0"
    let ?A = "awaitPeers (selectTie w) (sessionDeadline w l) ?cnt ?now"
    from Start_swarm_zero [OF z, of ?l] no_peers(4)
    have "\<exists>t. ?A = Stopped t" and o: "out = NewOut internalError (Text ''Stopped while waiting for peers'')
                                    ''context cancelled'' NoData"
      by (auto simp: ls split: waited.splits)
    with awaitPeers_spec [of "selectTie w" "sessionDeadline w l" ?cnt ?now]
    have "?A = Stopped (max ?now (sessionDeadline w l))
          \<and> (\<forall>k. ?now + k * Second < sessionDeadline w l \<longrightarrow> polls_idle ?cnt ?now (k + 1))"
      by auto
    with no_peers o ls show ?thesis by (simp add: Let_def)
  next
    case (download evs md evs1 evs2 t)
    let ?l = "withDestination w l md"
    from assms download g0 not_bootstrapped [OF Start_setup_not_bootstrapped, of ls 0 w ?l md]
    have "Bootstrapped ls 0 \<in> set (fst (Start_swarm w ?l md)) \<or>
          Bootstrapped ls 0 \<in> set (fst (Start_download w ?l md stat progUpd))"
      by (simp add: showStep_def)
    moreover have "Bootstrapped ls 0 \<notin> set (fst (Start_download w ?l md stat progUpd))"
      by (rule not_bootstrapped [OF Start_download_not_bootstrapped])
    ultimately have "Bootstrapped ls 0 \<in> set (filter bootstrapped (fst (Start_swarm w ?l md)))"
      by simp
    then have ls: "ls = Leaders (Cookie md)" and z: "fst (Bootstrap w (setupDone w) (Leaders (Cookie md))) = 0"
      unfolding Start_swarm_bootstrapped by simp_all
    let ?now = "setupDone w + int (snd (Bootstrap w (setupDone w) ls))"
    let ?cnt = "sharedCount w l ls ?now 0"
    let ?A = "awaitPeers (selectTie w) (sessionDeadline w l) ?cnt ?now"
    from Start_swarm_zero [OF z, of ?l] download(4)
    have "\<exists>t. ?A = Proceeded t"
      by (auto simp: ls split: waited.splits)
    with awaitPeers_spec [of "selectTie w" "sessionDeadline w l" ?cnt ?now]
    have "\<exists>k\<ge>1. ?A = Proceeded (?now + k * Second)
                      \<and> ?now + k * Second \<le> sessionDeadline w l \<and> 0 < ?cnt (?now + k * Second)
                      \<and> polls_idle ?cnt ?now k"
      by auto
    moreover from Start_download_decodes [of md w ?l stat progUpd] download(5)
    have "\<exists>r. DecodedCid (Hash (Cookie md)) r \<in> set (fst ?S)"
      by auto
    ultimately show ?thesis using download(1) ls by (simp add: Let_def)
  qed
qed

subsection \<open>When the retry task is started\<close>

lemma not_spawned: "filter spawned evs = [] \<Longrightarrow> SpawnedRetry \<notin> set evs"
  by (auto simp: filter_empty_conv)

lemma getInfo_not_spawned: "filter spawned (fst (getInfo w s c k)) = []"
  by (simp add: getInfo_def split: sum.splits prod.splits option.splits)

lemma updateInfo_not_spawned: "filter spawned (fst (updateInfo w i t)) = []"
  by (simp add: updateInfo_def split: sum.splits prod.splits option.splits)

lemma Start_setup_not_spawned: "filter spawned (fst (Start_setup w l md)) = []"
  by (simp add: Start_setup_def showStep_def split: option.splits)

lemma Start_finish_not_spawned: "filter spawned (fst (Start_finish w l md stat)) = []"
  using updateInfo_not_spawned [of w md "copyEnded w - copyStarted w"]
  by (auto simp: Start_finish_def showStep_def Let_def split: prod.splits outcome.splits)

lemma Start_download_not_spawned:
  "filter spawned (fst (Start_download w l md stat progUpd)) = []"
  using Start_finish_not_spawned [of w l md stat]
  by (auto simp: Start_download_def showStep_def Let_def
           split: prod.splits option.splits sum.splits)

lemma Start_swarm_spawned:
  "SpawnedRetry \<in> set (fst (Start_swarm w l md)) \<longleftrightarrow>
     fst (Bootstrap w (setupDone w) (Leaders (Cookie md))) < peerThreshold"
  by (auto simp: Start_swarm_def showStep_def Let_def split: prod.splits waited.splits)

lemma Start_swarm_bootstrapped_iff:
  "Bootstrapped ls c \<in> set (fst (Start_swarm w l md)) \<longleftrightarrow>
     ls = Leaders (Cookie md) \<and> c = fst (Bootstrap w (setupDone w) (Leaders (Cookie md)))"
proof -
  have "Bootstrapped ls c \<in> set (fst (Start_swarm w l md)) \<longleftrightarrow>
        Bootstrapped ls c \<in> set (filter bootstrapped (fst (Start_swarm w l md)))"
    by simp
  then show ?thesis unfolding Start_swarm_bootstrapped by auto
qed

lemma Start_bootstrapped:
  assumes "Bootstrapped ls c \<in> set (fst (Start w l sharable onlyInfo stat progUpd))"
  shows "c = fst (Bootstrap w (setupDone w) ls)
         \<and> (SpawnedRetry \<in> set (fst (Start w l sharable onlyInfo stat progUpd))
              \<longleftrightarrow> c < peerThreshold)"
proof -
  note g0 = not_bootstrapped [OF getInfo_not_bootstrapped, of ls c w sharable "[]" "pubKey l"]
  note g1 = not_spawned [OF getInfo_not_spawned, of w sharable "[]" "pubKey l"]
  show ?thesis
  proof (cases rule: Start_cases [of w sharable l onlyInfo stat progUpd])
    case (panic evs p)
    with assms g0 show ?thesis by simp
  next
    case (no_metadata evs e)
    with assms g0 show ?thesis by simp
  next
    case (only_info evs md)
    with assms g0 show ?thesis by (simp add: showStep_def)
  next
    case (setup_failed evs md evs1 out)
    with assms g0
      not_bootstrapped [OF Start_setup_not_bootstrapped, of ls c w "withDestination w l md" md]
    show ?thesis by (simp add: showStep_def)
  next
    case (no_peers evs md evs1 evs2 out)
    let ?l = "withDestination w l md"
    from assms no_peers g0 not_bootstrapped [OF Start_setup_not_bootstrapped, of ls c w ?l md]
    have "Bootstrapped ls c \<in> set (fst (Start_swarm w ?l md))"
      by (simp add: showStep_def)
    then have b: "ls = Leaders (Cookie md)" "c = fst (Bootstrap w (setupDone w) (Leaders (Cookie md)))"
      by (simp_all add: Start_swarm_bootstrapped_iff)
    from no_peers g1 not_spawned [OF Start_setup_not_spawned, of w ?l md]
    have "SpawnedRetry \<in> set (fst (Start w l sharable onlyInfo stat progUpd)) \<longleftrightarrow>
          SpawnedRetry \<in> set (fst (Start_swarm w ?l md))"
      by (simp add: showStep_def)
    with b show ?thesis by (simp add: Start_swarm_spawned)
  next
    case (download evs md evs1 evs2 t)
    let ?l = "withDestination w l md"
    from assms download g0 not_bootstrapped [OF Start_setup_not_bootstrapped, of ls c w ?l md]
      not_bootstrapped [OF Start_download_not_bootstrapped, of ls c w ?l md stat progUpd]
    have "Bootstrapped ls c \<in> set (fst (Start_swarm w ?l md))"
      by (simp add: showStep_def)
    then have b: "ls = Leaders (Cookie md)" "c = fst (Bootstrap w (setupDone w) (Leaders (Cookie md)))"
      by (simp_all add: Start_swarm_bootstrapped_iff)
    from download g1 not_spawned [OF Start_setup_not_spawned, of w ?l md]
      not_spawned [OF Start_download_not_spawned, of w ?l md stat progUpd]
    have "SpawnedRetry \<in> set (fst (Start w l sharable onlyInfo stat progUpd)) \<longleftrightarrow>
          SpawnedRetry \<in> set (fst (Start_swarm w ?l md))"
      by (simp add: showStep_def)
    with b show ?thesis by (simp add: Start_swarm_spawned)
  qed
qed

text \<open>
  C8 (as amended). The count of the first bootstrap is the count the transport reports
  for the leader list; the retry task is never started when that count is at least the
  threshold of 5, and is started when it is below. A leader list of five or more does
  not by itself give a count of five.
\<close>

theorem retry_started_below_threshold:
  assumes "Bootstrapped ls c \<in> set (fst (Start w l sharable onlyInfo stat progUpd))"
  shows "c = fst (Bootstrap w (setupDone w) ls)
         \<and> (peerThreshold \<le> c \<longrightarrow> SpawnedRetry \<notin> set (fst (Start w l sharable onlyInfo stat progUpd)))
         \<and> (c < peerThreshold \<longrightarrow> SpawnedRetry \<in> set (fst (Start w l sharable onlyInfo stat progUpd)))"
  using Start_bootstrapped [OF assms] by auto

text \<open>Five leaders, none of them reachable: the first bootstrap counts zero and the retry
  task is started.\<close>

theorem five_leaders_counterexample:
  "length (Leaders (Cookie demo_info)) = 5
   \<and> snd (getInfo unreachable_world ''abc123'' [] (pubKey demo_client)) = Return (Inr demo_info)
   \<and> Bootstrapped (Leaders (Cookie demo_info)) 0
       \<in> set (fst (Start unreachable_world demo_client ''abc123'' False False False))
   \<and> SpawnedRetry \<in> set (fst (Start unreachable_world demo_client ''abc123'' False False False))"
  by code_simp

theorem retry_started_below_threshold_witness:
  "Bootstrapped demo_leaders 5 \<in> set (fst (Start demo_world demo_client ''abc123'' False False False))
   \<and> SpawnedRetry \<notin> set (fst (Start demo_world demo_client ''abc123'' False False False))
   \<and> Bootstrapped demo_leaders 0
        \<in> set (fst (Start unreachable_world demo_client ''abc123'' False False False))
   \<and> SpawnedRetry \<in> set (fst (Start unreachable_world demo_client ''abc123'' False False False))"
proof -
  have a: "Bootstrapped demo_leaders 5
             \<in> set (fst (Start demo_world demo_client ''abc123'' False False False))"
    by code_simp
  have b: "Bootstrapped demo_leaders 0
             \<in> set (fst (Start unreachable_world demo_client ''abc123'' False False False))"
    by code_simp
  from retry_started_below_threshold [OF a] retry_started_below_threshold [OF b] a b
  show ?thesis by (simp add: peerThreshold_def)
qed

theorem zero_peers_wait_witness:
  "Bootstrapped demo_leaders 0
     \<in> set (fst (Start unreachable_world demo_client ''abc123'' False False False))
   \<and> sessionDeadline unreachable_world demo_client = Second * 2
   \<and> snd (snd (Start unreachable_world demo_client ''abc123'' False False False)) =
       Return (NewOut internalError (Text ''Stopped while waiting for peers'')
                 ''context cancelled'' NoData)
   \<and> Bootstrapped demo_leaders 0
       \<in> set (fst (Start late_world (demo_client\<lparr>timeout := Minute\<rparr>) ''abc123'' False False False))
   \<and> awaitPeers (selectTie late_world) (sessionDeadline late_world (demo_client\<lparr>timeout := Minute\<rparr>))
        (sharedCount late_world (demo_client\<lparr>timeout := Minute\<rparr>) demo_leaders 0 0) 0
       = Proceeded (Second * 30)
   \<and> snd (snd (Start late_world (demo_client\<lparr>timeout := Minute\<rparr>) ''abc123'' False False False))
       = Return (NewOut 200 DownloadSuccess [] NoData)"
proof -
  have a: "Bootstrapped demo_leaders 0
             \<in> set (fst (Start unreachable_world demo_client ''abc123'' False False False))"
    by code_simp
  have b: "Bootstrapped demo_leaders 0
       \<in> set (fst (Start late_world (demo_client\<lparr>timeout := Minute\<rparr>) ''abc123'' False False False))"
    by code_simp
  have c: "sessionDeadline unreachable_world demo_client = Second * 2"
    by code_simp
  have d: "snd (snd (Start unreachable_world demo_client ''abc123'' False False False)) =
       Return (NewOut internalError (Text ''Stopped while waiting for peers'')
                 ''context cancelled'' NoData)"
    by code_simp
  have e: "awaitPeers (selectTie late_world) (sessionDeadline late_world (demo_client\<lparr>timeout := Minute\<rparr>))
        (sharedCount late_world (demo_client\<lparr>timeout := Minute\<rparr>) demo_leaders 0 0) 0
       = Proceeded (Second * 30)"
    by code_simp
  have f: "snd (snd (Start late_world (demo_client\<lparr>timeout := Minute\<rparr>) ''abc123'' False False False))
       = Return (NewOut 200 DownloadSuccess [] NoData)"
    by code_simp
  from zero_peers_wait [OF a] zero_peers_wait [OF b] a b c d e f
  show ?thesis by blast
qed

subsection \<open>The retry task\<close>


lemma retryTask_rebootstraps:
  "Rebootstrap t n t' \<in> set (retryTask w leaders start doneAt now count) \<Longrightarrow>
     now + Second * 30 \<le> t \<and> t \<le> doneAt \<and> t - start \<le> Minute * 15
     \<and> n = fst (Bootstrap w t leaders) \<and> t' = t + int (snd (Bootstrap w t leaders))"
proof (induction w leaders start doneAt now count rule: retryTask.induct)
  case (1 w leaders start doneAt now count)
  let ?t = "now + Second * 30"
  let ?b = "Bootstrap w ?t leaders"
  have pos: "0 < Second * 30" by (simp add: Second_def Millisecond_def)
  show ?case
  proof (cases "count < peerThreshold \<and> select_wait (selectTie w) doneAt now (Second * 30) = (TimerFired, ?t)
                 \<and> \<not> Minute * 15 < ?t - start")
    case False
    with "1.prems" show ?thesis
      by (subst (asm) retryTask.simps)
         (auto simp: select_wait_def Let_def split: prod.splits if_splits)
  next
    case True
    then have c: "count < peerThreshold"
      and sel: "select_wait (selectTie w) doneAt now (Second * 30) = (TimerFired, ?t)"
      and el: "\<not> Minute * 15 < ?t - start"
      by simp_all
    from sel have le: "?t \<le> doneAt"
      by (auto simp: select_wait_def split: if_splits)
    show ?thesis
    proof (cases "count < int (length leaders)")
      case True
      obtain n0 d0 where b: "?b = (n0, d0)" by (cases ?b)
      from "1.prems" c sel el True b
      consider "Rebootstrap t n t' = Rebootstrap ?t n0 (?t + int d0)"
        | "Rebootstrap t n t' \<in> set (retryTask w leaders start doneAt (?t + int d0) (count + n0))"
        by (subst (asm) retryTask.simps) (auto simp: Let_def)
      then show ?thesis
      proof cases
        case 1
        with le el b show ?thesis by simp
      next
        case 2
        from "1.IH"(1) [OF c sel [symmetric] refl el True b [symmetric] refl 2]
        show ?thesis using pos by simp
      qed
    next
      case False
      from "1.prems" c sel el False
      have "Rebootstrap t n t' \<in> set (retryTask w leaders start doneAt ?t count)"
        by (subst (asm) retryTask.simps) (auto simp: Let_def)
      from "1.IH"(2) [OF c sel [symmetric] refl el False this]
      show ?thesis using pos by simp
    qed
  qed
qed

subsection \<open>The shared count\<close>

lemma counts_hd: "counts c steps \<noteq> [] \<and> hd (counts c steps) = c"
  by (induction c steps rule: counts.induct) simp_all

lemma counts_sorted:
  "(\<forall>t n t'. Rebootstrap t n t' \<in> set steps \<longrightarrow> 0 \<le> n) \<Longrightarrow>
     sorted (counts c steps) \<and> (\<forall>x \<in> set (counts c steps). c \<le> x)"
proof (induction c steps rule: counts.induct)
  case (1 c)
  then show ?case by simp
next
  case (2 c tick n t' steps)
  from "2.prems" have n: "0 \<le> n"
    and r: "\<forall>t n t'. Rebootstrap t n t' \<in> set steps \<longrightarrow> 0 \<le> n"
    by auto
  from "2.IH" [OF r]
  have "sorted (counts (c + n) steps) \<and> (\<forall>x \<in> set (counts (c + n) steps). c + n \<le> x)" .
  with n show ?case by force
qed simp_all

lemma counts_increments:
  "(\<forall>t n t'. Rebootstrap t n t' \<in> set steps \<longrightarrow> P n) \<Longrightarrow> Suc i < length (counts c steps) \<Longrightarrow>
     \<exists>n. P n \<and> counts c steps ! Suc i = counts c steps ! i + n"
proof (induction c steps arbitrary: i rule: counts.induct)
  case (1 c)
  then show ?case by simp
next
  case (2 c tick n t' steps)
  show ?case
  proof (cases i)
    case 0
    have "counts (c + n) steps ! 0 = c + n"
      using counts_hd [of "c + n" steps] by (cases "counts (c + n) steps") auto
    moreover from "2.prems" have "P n" by auto
    ultimately show ?thesis using 0 by auto
  next
    case (Suc j)
    from "2.prems" have r: "\<forall>t n t'. Rebootstrap t n t' \<in> set steps \<longrightarrow> P n"
      and "Suc j < length (counts (c + n) steps)"
      using Suc by auto
    from "2.IH" [OF this] Suc show ?thesis by simp
  qed
qed simp_all

lemma countAt_ge:
  "(\<forall>t n t'. Rebootstrap t n t' \<in> set steps \<longrightarrow> 0 \<le> n) \<Longrightarrow> c \<le> countAt c steps t"
proof (induction c steps t rule: countAt.induct)
  case (2 c tick n t' steps t)
  from "2.prems" have n: "0 \<le> n"
    and r: "\<forall>t n t'. Rebootstrap t n t' \<in> set steps \<longrightarrow> 0 \<le> n"
    by auto
  show ?case
  proof (cases "t' \<le> t")
    case True
    with "2.IH" [OF True r] n show ?thesis by simp
  next
    case False
    then show ?thesis by simp
  qed
qed simp_all

lemma countAt_mono:
  "(\<forall>t n t'. Rebootstrap t n t' \<in> set steps \<longrightarrow> 0 \<le> n) \<Longrightarrow> t1 \<le> t2 \<Longrightarrow>
     countAt c steps t1 \<le> countAt c steps t2"
proof (induction c steps t1 rule: countAt.induct)
  case (2 c tick n t' steps t)
  from "2.prems" have n: "0 \<le> n"
    and r: "\<forall>t n t'. Rebootstrap t n t' \<in> set steps \<longrightarrow> 0 \<le> n"
    by auto
  show ?case
  proof (cases "t' \<le> t")
    case True
    with "2.IH" [OF True r "2.prems"(2)] "2.prems"(2) show ?thesis by simp
  next
    case False
    from countAt_ge [OF r, of "c + n" t2] n have "c \<le> countAt (c + n) steps t2" by simp
    with False show ?thesis by simp
  qed
qed simp_all

lemma retryTask_nonneg:
  assumes "\<forall>t ls. 0 \<le> fst (Bootstrap w t ls)"
  shows "\<forall>t n t'. Rebootstrap t n t' \<in> set (retryTask w leaders start doneAt now count) \<longrightarrow> 0 \<le> n"
  using assms retryTask_rebootstraps by metis

text \<open>
  C4. When every call of \<^verbatim>\<open>Bootstrap\<close> returns a count that is not negative, the shared
  count never decreases during a session: it starts as the count of the first bootstrap,
  each later value is the one before plus the result of a bootstrap of the retry task,
  so its successive values are in ascending order, and the count read at a later instant
  is never below the count read at an earlier one.
\<close>

theorem count_never_decreases:
  assumes "\<forall>t ls. 0 \<le> fst (Bootstrap w t ls)"
  shows "hd (counts c (retryTask w ls start doneAt now c)) = c
         \<and> sorted (counts c (retryTask w ls start doneAt now c))
         \<and> (\<forall>i. Suc i < length (counts c (retryTask w ls start doneAt now c)) \<longrightarrow>
               (\<exists>t. counts c (retryTask w ls start doneAt now c) ! Suc i
                      = counts c (retryTask w ls start doneAt now c) ! i + fst (Bootstrap w t ls)))
         \<and> (\<forall>t. c \<le> sharedCount w l ls now c t)
         \<and> (\<forall>t t'. t \<le> t' \<longrightarrow> sharedCount w l ls now c t \<le> sharedCount w l ls now c t')"
proof -
  let ?r = "retryTask w ls start doneAt now c"
  note nn = retryTask_nonneg [OF assms]
  have a: "hd (counts c ?r) = c" by (simp add: counts_hd)
  have b: "sorted (counts c ?r)" using counts_sorted [OF nn] by blast
  have inc: "\<forall>t n t'. Rebootstrap t n t' \<in> set ?r \<longrightarrow> (\<exists>u. n = fst (Bootstrap w u ls))"
    using retryTask_rebootstraps by blast
  have d: "\<exists>t. counts c ?r ! Suc i = counts c ?r ! i + fst (Bootstrap w t ls)"
    if "Suc i < length (counts c ?r)" for i
    using counts_increments [of ?r "\<lambda>n. \<exists>u. n = fst (Bootstrap w u ls)", OF inc that] by blast
  have e: "c \<le> sharedCount w l ls now c t" for t
    using countAt_ge [OF nn] by (simp add: sharedCount_def)
  have f: "sharedCount w l ls now c t \<le> sharedCount w l ls now c t'" if "t \<le> t'" for t t'
    using countAt_mono [OF nn that] by (simp add: sharedCount_def)
  from a b d e f show ?thesis by blast
qed

theorem count_never_decreases_witness:
  "(\<forall>t ls. 0 \<le> fst (Bootstrap slow_world t ls))
   \<and> counts 0 (retryTask slow_world demo_leaders 0 (Minute * 20) 0 0) = [0, 1, 2, 3, 4, 5]
   \<and> sorted (counts 0 (retryTask slow_world demo_leaders 0 (Minute * 20) 0 0))
   \<and> sharedCount slow_world (demo_client\<lparr>timeout := Minute * 20\<rparr>) demo_leaders 0 0 (Second * 29) = 0
   \<and> sharedCount slow_world (demo_client\<lparr>timeout := Minute * 20\<rparr>) demo_leaders 0 0 (Second * 31) = 1
   \<and> sharedCount slow_world (demo_client\<lparr>timeout := Minute * 20\<rparr>) demo_leaders 0 0 (Minute * 10) = 5"
proof -
  have h: "\<forall>t ls. 0 \<le> fst (Bootstrap slow_world t ls)"
    by (simp add: slow_world_def demo_world_def)
  have c: "counts 0 (retryTask slow_world demo_leaders 0 (Minute * 20) 0 0) = [0, 1, 2, 3, 4, 5]"
    by code_simp
  have s1: "sharedCount slow_world (demo_client\<lparr>timeout := Minute * 20\<rparr>) demo_leaders 0 0 (Second * 29) = 0"
    by code_simp
  have s2: "sharedCount slow_world (demo_client\<lparr>timeout := Minute * 20\<rparr>) demo_leaders 0 0 (Second * 31) = 1"
    by code_simp
  have s3: "sharedCount slow_world (demo_client\<lparr>timeout := Minute * 20\<rparr>) demo_leaders 0 0 (Minute * 10) = 5"
    by code_simp
  from count_never_decreases [OF h, of 0 demo_leaders 0 "Minute * 20" 0
         "demo_client\<lparr>timeout := Minute * 20\<rparr>"] h c s1 s2 s3
  show ?thesis by blast
qed



subsection \<open>Rounding to the nearest float\<close>

lemma round_even_lower: "\<lfloor>q\<rfloor> \<le> round_even q"
  by (simp add: round_even_def Let_def)

lemma round_even_upper: "round_even q \<le> \<lfloor>q\<rfloor> + 1"
  by (simp add: round_even_def Let_def)

lemma round_even_of_int [simp]: "round_even (of_int n) = n"
  by (simp add: round_even_def)

lemma round_even_mono:
  assumes "q \<le> q'"
  shows "round_even q \<le> round_even q'"
proof (cases "\<lfloor>q\<rfloor> = \<lfloor>q'\<rfloor>")
  case True
  with assms show ?thesis
    by (auto simp: round_even_def Let_def)
next
  case False
  with assms have "\<lfloor>q\<rfloor> + 1 \<le> \<lfloor>q'\<rfloor>"
    using floor_mono [OF assms] by linarith
  with round_even_upper [of q] round_even_lower [of q'] show ?thesis by linarith
qed

lemma p2_pos [simp]: "0 < (2::rat) powi e"
  by simp

lemma p2_mono: "a \<le> b \<Longrightarrow> (2::rat) powi a \<le> 2 powi b"
  by (rule power_int_increasing) simp_all

lemma p2_strict: "a < b \<Longrightarrow> (2::rat) powi a < 2 powi b"
  by (rule power_int_strict_increasing) simp_all

lemma p2_add: "(2::rat) powi (a + b) = 2 powi a * 2 powi b"
  by (simp add: power_int_add)

lemma p2_diff: "(2::rat) powi (a - b) = 2 powi a / 2 powi b"
  by (simp add: power_int_diff)

lemma bitlen_rat:
  assumes "0 < p"
  shows "(2::rat) powi (bitlen p - 1) \<le> of_int p" and "of_int p < (2::rat) powi bitlen p"
proof -
  from assms have b: "1 \<le> bitlen p"
    using bitlen_eq_zero_iff [of p] bitlen_nonneg [of p] by linarith
  from bitlen_bounds [OF assms]
  have l: "2 ^ nat (bitlen p - 1) \<le> p" and u: "p < 2 ^ nat (bitlen p)" by simp_all
  from l have "(of_int (2 ^ nat (bitlen p - 1)) :: rat) \<le> of_int p"
    by (simp only: of_int_le_iff)
  with b show "(2::rat) powi (bitlen p - 1) \<le> of_int p"
    by (simp add: power_int_nonneg_exp)
  from u have "(of_int p :: rat) < of_int (2 ^ nat (bitlen p))"
    by (simp only: of_int_less_iff)
  with b show "of_int p < (2::rat) powi bitlen p"
    by (simp add: power_int_nonneg_exp)
qed

lemma expo_bounds:
  assumes "0 < x"
  shows "2 powi expo x \<le> x \<and> x < 2 powi (expo x + 1)"
proof -
  obtain p q where pq: "quotient_of x = (p, q)" by (cases "quotient_of x")
  then have q: "0 < q" by (rule quotient_of_denom_pos)
  from pq have x: "x = of_int p / of_int q" by (rule quotient_of_div)
  with assms q have p: "0 < p" by (simp add: zero_less_divide_iff)
  let ?d = "bitlen p - bitlen q"
  note bp = bitlen_rat [OF p] and bq = bitlen_rat [OF q]
  have qpos: "0 < (of_int q :: rat)" using q by simp
  have "x < 2 powi bitlen p / of_int q"
    unfolding x using bp(2) qpos by (simp add: divide_strict_right_mono)
  also have "\<dots> \<le> 2 powi bitlen p / 2 powi (bitlen q - 1)"
    using bq(1) qpos by (intro divide_left_mono) (simp_all add: zero_less_mult_iff)
  also have "\<dots> = 2 powi (bitlen p - (bitlen q - 1))"
    by (simp only: p2_diff)
  also have "\<dots> = 2 powi (?d + 1)"
    by (rule arg_cong [where f = "\<lambda>e. 2 powi e"]) simp
  finally have up: "x < 2 powi (?d + 1)" .
  have "(2::rat) powi (?d - 1) = 2 powi (bitlen p - 1 - bitlen q)"
    by (rule arg_cong [where f = "\<lambda>e. 2 powi e"]) simp
  also have "\<dots> = 2 powi (bitlen p - 1) / 2 powi bitlen q"
    by (simp only: p2_diff)
  finally have "(2::rat) powi (?d - 1) = 2 powi (bitlen p - 1) / 2 powi bitlen q" .
  also have "\<dots> \<le> of_int p / 2 powi bitlen q"
    using bp(1) by (simp add: divide_right_mono)
  also have "\<dots> \<le> x"
    unfolding x using bq(2) p qpos by (intro divide_left_mono) (simp_all add: zero_less_mult_iff)
  finally have lo: "2 powi (?d - 1) \<le> x" .
  show ?thesis
  proof (cases "2 powi ?d \<le> x")
    case True
    with up show ?thesis by (simp add: expo_def pq)
  next
    case False
    with lo show ?thesis by (simp add: expo_def pq)
  qed
qed

lemma expo_unique:
  assumes "2 powi e \<le> x" and "x < 2 powi (e + 1)"
  shows "expo x = e"
proof -
  have "0 < x" using assms(1) p2_pos [of e] by linarith
  note b = expo_bounds [OF this]
  have "\<not> expo x < e"
  proof
    assume "expo x < e"
    then have "2 powi (expo x + 1) \<le> (2::rat) powi e" by (intro p2_mono) simp
    with b assms show False by linarith
  qed
  moreover have "\<not> e < expo x"
  proof
    assume "e < expo x"
    then have "2 powi (e + 1) \<le> (2::rat) powi expo x" by (intro p2_mono) simp
    with b assms show False by linarith
  qed
  ultimately show ?thesis by simp
qed

lemma expo_mono:
  assumes "0 < x" and "x \<le> y"
  shows "expo x \<le> expo y"
proof (rule ccontr)
  assume "\<not> expo x \<le> expo y"
  then have "2 powi (expo y + 1) \<le> (2::rat) powi expo x" by (intro p2_mono) simp
  with expo_bounds [OF assms(1)] expo_bounds [of y] assms show False by linarith
qed

lemma fl_pos_def: "0 < x \<Longrightarrow> fl x = of_int (round_even (x / 2 powi (expo x - 52))) * 2 powi (expo x - 52)"
  by (simp add: fl_def)

lemma p2_52: "(2::rat) powi e = 2 ^ 52 * 2 powi (e - 52)"
proof -
  have "(2::rat) powi e = 2 powi (52 + (e - 52))"
    by (rule arg_cong [where f = "\<lambda>e. 2 powi e"]) simp
  also have "\<dots> = 2 powi 52 * 2 powi (e - 52)" by (simp only: p2_add)
  finally show ?thesis by simp
qed

lemma p2_53: "(2::rat) powi (e + 1) = 2 ^ 53 * 2 powi (e - 52)"
proof -
  have "(2::rat) powi (e + 1) = 2 powi (53 + (e - 52))"
    by (rule arg_cong [where f = "\<lambda>e. 2 powi e"]) simp
  also have "\<dots> = 2 powi 53 * 2 powi (e - 52)" by (simp only: p2_add)
  finally show ?thesis by simp
qed

lemma mantissa_bounds:
  assumes "0 < x"
  shows "2 ^ 52 \<le> x / 2 powi (expo x - 52)" and "x / 2 powi (expo x - 52) < 2 ^ 53"
proof -
  let ?u = "(2::rat) powi (expo x - 52)"
  have u: "0 < ?u" by simp
  from expo_bounds [OF assms] have "2 ^ 52 * ?u \<le> x" and "x < 2 ^ 53 * ?u"
    using p2_52 [of "expo x"] p2_53 [of "expo x"] by simp_all
  with u show "2 ^ 52 \<le> x / ?u" and "x / ?u < 2 ^ 53"
    by (simp_all add: pos_le_divide_eq pos_divide_less_eq)
qed

lemma fl_bounds:
  assumes "0 < x"
  shows "2 powi expo x \<le> fl x" and "fl x \<le> 2 powi (expo x + 1)"
proof -
  let ?u = "(2::rat) powi (expo x - 52)"
  let ?n = "round_even (x / ?u)"
  have u: "0 < ?u" by simp
  from mantissa_bounds [OF assms]
  have "round_even (of_int (2 ^ 52)) \<le> ?n" and "?n \<le> round_even (of_int (2 ^ 53))"
    by (auto intro!: round_even_mono)
  then have "2 ^ 52 \<le> ?n" and "?n \<le> 2 ^ 53"
    by (simp_all only: round_even_of_int)
  then have "(of_int (2 ^ 52) :: rat) \<le> of_int ?n" and "(of_int ?n :: rat) \<le> of_int (2 ^ 53)"
    by (simp_all only: of_int_le_iff)
  then have "2 ^ 52 * ?u \<le> of_int ?n * ?u" and "of_int ?n * ?u \<le> 2 ^ 53 * ?u"
    using u by (simp_all add: mult_right_mono)
  then show "2 powi expo x \<le> fl x" and "fl x \<le> 2 powi (expo x + 1)"
    using p2_52 [of "expo x"] p2_53 [of "expo x"] by (simp_all add: fl_pos_def [OF assms])
qed

lemma fl_positive: "0 < x \<Longrightarrow> 0 < fl x"
  using fl_bounds(1) [of x] p2_pos [of "expo x"] by linarith

lemma fl_zero [simp]: "fl 0 = 0"
  by (simp add: fl_def)

lemma fl_mono_pos:
  assumes "0 < x" and "x \<le> y"
  shows "fl x \<le> fl y"
proof -
  from assms have y: "0 < y" by simp
  show ?thesis
  proof (cases "expo x = expo y")
    case True
    let ?u = "(2::rat) powi (expo y - 52)"
    have "x / ?u \<le> y / ?u" using assms(2) by (simp add: divide_right_mono)
    then have "round_even (x / ?u) \<le> round_even (y / ?u)" by (rule round_even_mono)
    then have "(of_int (round_even (x / ?u)) :: rat) \<le> of_int (round_even (y / ?u))"
      by (simp only: of_int_le_iff)
    then have "of_int (round_even (x / ?u)) * ?u \<le> of_int (round_even (y / ?u)) * ?u"
      by (simp add: mult_right_mono)
    then show ?thesis by (simp add: fl_pos_def [OF assms(1)] fl_pos_def [OF y] True)
  next
    case False
    with expo_mono [OF assms] have "expo x + 1 \<le> expo y" by simp
    then have "(2::rat) powi (expo x + 1) \<le> 2 powi expo y" by (rule p2_mono)
    with fl_bounds(2) [OF assms(1)] fl_bounds(1) [OF y] show ?thesis by linarith
  qed
qed

lemma fl_mono:
  assumes "0 \<le> x" and "x \<le> y"
  shows "fl x \<le> fl y"
proof (cases "x = 0")
  case True
  show ?thesis
  proof (cases "y = 0")
    case True
    with \<open>x = 0\<close> show ?thesis by simp
  next
    case False
    with assms True have "0 < y" by simp
    from fl_positive [OF this] True show ?thesis by simp
  qed
next
  case False
  with assms have "0 < x" by simp
  then show ?thesis using assms(2) by (rule fl_mono_pos)
qed

lemma fl_nonneg: "0 \<le> x \<Longrightarrow> 0 \<le> fl x"
  using fl_mono [of 0 x] by simp

lemma fl_exact:
  assumes "2 ^ 52 \<le> m" and "m < 2 ^ 53" and "x = of_int m * 2 powi k"
  shows "fl x = x"
proof -
  have mpos: "0 < (of_int m :: rat)" using assms(1) by simp
  then have xpos: "0 < x" by (simp add: assms(3))
  from assms(1) have "(of_int (2 ^ 52) :: rat) \<le> of_int m" by (simp only: of_int_le_iff)
  then have "2 ^ 52 * 2 powi k \<le> x" by (simp add: assms(3) mult_right_mono)
  moreover have "(2::rat) powi (k + 52) = 2 ^ 52 * 2 powi k"
    using p2_52 [of "k + 52"] by simp
  ultimately have lo: "2 powi (k + 52) \<le> x" by simp
  from assms(2) have "(of_int m :: rat) < of_int (2 ^ 53)" by (simp only: of_int_less_iff)
  then have "x < 2 ^ 53 * 2 powi k" by (simp add: assms(3) mult_strict_right_mono)
  moreover have "(2::rat) powi (k + 52 + 1) = 2 ^ 53 * 2 powi k"
    using p2_53 [of "k + 52"] by simp
  ultimately have up: "x < 2 powi (k + 52 + 1)" by simp
  from expo_unique [OF lo up] have e: "expo x - 52 = k" by simp
  have q: "x / 2 powi k = of_int m" by (simp add: assms(3))
  have "fl x = of_int (round_even (x / 2 powi k)) * 2 powi k"
    using fl_pos_def [OF xpos] by (simp only: e)
  also have "\<dots> = of_int m * 2 powi k" by (simp only: q round_even_of_int)
  finally show ?thesis by (simp only: assms(3))
qed

lemma fl_1 [simp]: "fl 1 = 1"
proof (rule fl_exact [of 4503599627370496 _ "- 52"])
  show "(1::rat) = of_int 4503599627370496 * 2 powi (- 52)"
    by (simp add: power_int_minus)
qed simp_all

lemma fl_100 [simp]: "fl 100 = 100"
proof (rule fl_exact [of 7036874417766400 _ "- 46"])
  show "(100::rat) = of_int 7036874417766400 * 2 powi (- 46)"
    by (simp add: power_int_minus)
qed simp_all

lemma trunc_mono:
  assumes "x \<le> y"
  shows "trunc x \<le> trunc y"
proof (cases "x < 0")
  case True
  show ?thesis
  proof (cases "y < 0")
    case True
    with \<open>x < 0\<close> assms show ?thesis by (simp add: trunc_def ceiling_mono)
  next
    case False
    then have "0 \<le> \<lfloor>y\<rfloor>" by simp
    moreover from True have "\<lceil>x\<rceil> \<le> 0" by (simp add: ceiling_le_zero)
    ultimately have "\<lceil>x\<rceil> \<le> \<lfloor>y\<rfloor>" by linarith
    with True False show ?thesis by (simp add: trunc_def)
  qed
next
  case False
  with assms have "\<not> y < 0" by simp
  with False assms show ?thesis by (simp add: trunc_def floor_mono)
qed

lemma progress_full:
  assumes "0 < t"
  shows "progress t t = 100"
proof -
  have "0 < fl (of_int t)" using assms by (intro fl_positive) simp
  then have "fl (of_int t) / fl (of_int t) = 1" by simp
  then show ?thesis by (simp add: progress_def)
qed

lemma fl_minus: "fl (- x) = - fl x"
  by (simp add: fl_def)

lemma fl_mono_all:
  assumes "x \<le> y"
  shows "fl x \<le> fl y"
proof (cases "0 \<le> x")
  case True
  then show ?thesis using assms by (rule fl_mono)
next
  case False
  then have x: "0 \<le> - x" by simp
  show ?thesis
  proof (cases "0 \<le> y")
    case True
    from fl_nonneg [OF x] fl_nonneg [OF True] show ?thesis by (simp add: fl_minus)
  next
    case False
    then have "0 \<le> - y" and "- y \<le> - x" using assms by simp_all
    from fl_mono [OF this] show ?thesis by (simp add: fl_minus)
  qed
qed

lemma progress_mono_all:
  assumes "s \<le> s'" and "0 < t"
  shows "progress s t \<le> progress s' t"
proof -
  let ?c = "fl (of_int t)"
  have c: "0 < ?c" using assms(2) by (intro fl_positive) simp
  have "fl (of_int s) \<le> fl (of_int s')" using assms(1) by (intro fl_mono_all) simp
  then have "fl (of_int s) / ?c \<le> fl (of_int s') / ?c"
    using c by (simp add: divide_right_mono)
  then have "fl (fl (of_int s) / ?c) \<le> fl (fl (of_int s') / ?c)"
    by (rule fl_mono_all)
  then show ?thesis unfolding progress_def by (intro fl_mono_all) simp
qed

subsection \<open>The percentages of the progress monitor\<close>

lemma monitor_percent:
  "(p, sz, t) \<in> set (fst (monitor tot samples)) \<Longrightarrow>
     p = trunc (progress sz tot) \<and> t = tot \<and> sz \<in> set (sizes samples)"
proof (induction tot samples rule: monitor.induct)
  case (3 tot sz samples)
  then show ?case
    by (auto simp: Let_def split: if_splits prod.splits)
qed simp_all

lemma monitor_sorted:
  "0 < tot \<Longrightarrow> sorted (sizes samples) \<Longrightarrow> sorted (map fst (fst (monitor tot samples)))"
proof (induction tot samples rule: monitor.induct)
  case (3 tot sz samples)
  show ?case
  proof (cases "progress sz tot = 100")
    case True
    then show ?thesis by simp
  next
    case False
    obtain calls r where m: "monitor tot samples = (calls, r)"
      by (cases "monitor tot samples")
    from "3.prems" have t: "0 < tot" and s: "sorted (sizes samples)"
      and le: "\<forall>s \<in> set (sizes samples). sz \<le> s"
      by auto
    from "3.IH" [OF refl False t s] m have so: "sorted (map fst calls)" by simp
    have "trunc (progress sz tot) \<le> p" if "(p, c) \<in> set calls" for p c
    proof -
      obtain s2 t2 where c: "c = (s2, t2)" by (cases c)
      from monitor_percent [of p s2 t2 tot samples] that m c
      have p: "p = trunc (progress s2 tot)" and "s2 \<in> set (sizes samples)" by simp_all
      with le have "sz \<le> s2" by blast
      from progress_mono_all [OF this t] p show ?thesis
        by (simp add: trunc_mono)
    qed
    then show ?thesis using False m so by (auto simp: Let_def)
  qed
qed simp_all

lemma monitor_stops:
  "0 < tot \<Longrightarrow> monitor tot (Inr tot # samples) = ([(100, tot, tot)], True)"
  by (simp add: progress_full trunc_def)

text \<open>
  C9. For a fixed positive total size and sampled sizes of the destination file that
  never decrease, the percentages passed to the observer never decrease. Each is
  \<^verbatim>\<open>size / totalSize * 100\<close> computed in \<^verbatim>\<open>float64\<close> and cut to an integer. When the sampled
  size equals the total the computed percentage is exactly 100, the observer is told 100
  and the monitor returns.
\<close>

theorem progress_is_monotone:
  assumes "0 < tot" and "sorted (sizes samples)"
  shows "sorted (map fst (fst (monitor tot samples)))
         \<and> (\<forall>call \<in> set (fst (monitor tot samples)).
               call = (trunc (fl (fl (fl (of_int (fst (snd call))) / fl (of_int tot)) * 100)),
                       fst (snd call), tot))
         \<and> progress tot tot = 100
         \<and> monitor tot (Inr tot # rest) = ([(100, tot, tot)], True)"
proof -
  have "call = (trunc (fl (fl (fl (of_int (fst (snd call))) / fl (of_int tot)) * 100)),
                       fst (snd call), tot)" if "call \<in> set (fst (monitor tot samples))" for call
  proof -
    obtain p s t where c: "call = (p, s, t)" by (cases call)
    with that monitor_percent [of p s t tot samples] show ?thesis
      by (simp add: progress_def)
  qed
  with monitor_sorted [OF assms] progress_full [OF assms(1)] monitor_stops [OF assms(1)]
  show ?thesis by blast
qed

theorem progress_is_monotone_witness:
  "(0::int) < 100
   \<and> sizes [Inr 0, Inl ''stat failed'', Inr 29, Inr 57, Inr 58, Inr 100, Inr 100]
       = [0, 29, 57, 58, 100, 100]
   \<and> monitor 100 [Inr 0, Inl ''stat failed'', Inr 29, Inr 57, Inr 58, Inr 100, Inr 100]
       = ([(0, 0, 100), (28, 29, 100), (56, 57, 100), (57, 58, 100), (100, 100, 100)], True)
   \<and> sorted (map fst (fst (monitor 100
        [Inr 0, Inl ''stat failed'', Inr 29, Inr 57, Inr 58, Inr 100, Inr 100])))"
proof -
  let ?xs = "[Inr 0, Inl ''stat failed'', Inr 29, Inr 57, Inr 58, Inr 100, Inr (100::int)]"
  have s: "sizes ?xs = [0, 29, 57, 58, 100, 100]" by simp
  have m: "monitor 100 ?xs
       = ([(0, 0, 100), (28, 29, 100), (56, 57, 100), (57, 58, 100), (100, 100, 100)], True)"
    by code_simp
  have a: "sorted (sizes ?xs)" by (simp add: s)
  have t: "(0::int) < 100" by simp
  from progress_is_monotone [OF t a, where rest = "[]"] s m show ?thesis by simp
qed

end
